theory Spec2Isabelle
  imports Complex_Main
begin

section \<open>Idle gateway detector: data model\<close>

text \<open>
  The development follows \<^verbatim>\<open>idle-gateways-detector/idle_gw.py\<close>. A
  \<^verbatim>\<open>datetime\<close> is the integer number of microseconds since the epoch, a
  \<^verbatim>\<open>timedelta\<close> an integer number of microseconds: addition and comparison of
  both are exact in Python, so they are integer arithmetic here (the finite range of
  \<^verbatim>\<open>datetime\<close>, years 1 to 9999, is not modelled). CloudWatch statistics,
  pandas sums and Python numbers are embedded in the reals.
\<close>

type_synonym datetime = int

definition timedelta_days :: "int \<Rightarrow> int" where
  "timedelta_days n = n * 86400000000"

definition NAT_METRICS :: "string list" where
  "NAT_METRICS =
    [''BytesInFromDestination'', ''BytesInFromSource'',
     ''BytesOutToDestination'', ''BytesOutToSource'',
     ''PacketsInFromDestination'', ''PacketsInFromSource'',
     ''PacketsOutToDestination'', ''PacketsOutToSource'',
     ''ConnectionAttemptCount'', ''ConnectionEstablishedCount'',
     ''ErrorPortAllocation'', ''IdleTimeoutCount'',
     ''ActiveConnectionCount'', ''ConnectionEstablishedRate'']"

definition IGW_METRICS :: "string list" where
  "IGW_METRICS =
    [''BytesInFromDestination'', ''BytesOutToDestination'',
     ''PacketsInFromDestination'', ''PacketsOutToDestination'',
     ''BytesDropCountBlackholeIPv4'', ''BytesDropCountNoRouteIPv4'',
     ''PacketsDropCountBlackholeIPv4'', ''PacketsDropCountNoRouteIPv4'']"

definition PERIOD_SECONDS :: nat where
  "PERIOD_SECONDS = 21600"

text \<open>
  Exceptions are values. \<open>ClientError\<close> stands for any failure raised by a call of the
  CloudWatch client; the others are Python's own.
\<close>

datatype py_error = ClientError | KeyError | IndexError | ZeroDivisionError | TypeError

text \<open>
  One datapoint of a \<^verbatim>\<open>get_metric_statistics\<close> response. The timestamp is read
  with \<^verbatim>\<open>dp["Timestamp"]\<close>, the four statistics with
  \<^verbatim>\<open>dp.get(name, 0)\<close>, so they may be absent.
\<close>

record datapoint =
  dp_Timestamp :: datetime
  dp_Sum :: "real option"
  dp_Average :: "real option"
  dp_Maximum :: "real option"
  dp_Minimum :: "real option"

type_synonym dimensions = "(string \<times> string) list"

text \<open>
  The CloudWatch client: the two operations the collector calls, each a function of its
  arguments that returns the response's list or fails. The calls made are recorded in a
  log, the collector's only effect besides its result.
\<close>

record cloudwatch =
  get_metric_statistics ::
    "string \<Rightarrow> string \<Rightarrow> dimensions \<Rightarrow> datetime \<Rightarrow> datetime \<Rightarrow> py_error + datapoint list"
  list_metrics :: "string \<Rightarrow> string \<Rightarrow> dimensions \<Rightarrow> py_error + string list"

datatype api_call =
  GetMetricStatistics string string dimensions datetime datetime
  | ListMetrics string string dimensions

type_synonym 'a io = "api_call list \<times> (py_error + 'a)"

definition return_io :: "'a \<Rightarrow> 'a io" where
  "return_io x = ([], Inr x)"

definition bind_io :: "'a io \<Rightarrow> ('a \<Rightarrow> 'b io) \<Rightarrow> 'b io" where
  "bind_io m f =
     (case m of
        (calls, Inl e) \<Rightarrow> (calls, Inl e)
      | (calls, Inr x) \<Rightarrow> (case f x of (calls', r) \<Rightarrow> (calls @ calls', r)))"

section \<open>Metric collection\<close>

subsection \<open>Chunked fetch\<close>

definition chunk_size :: int where
  "chunk_size = timedelta_days 30"

text \<open>
  The \<^verbatim>\<open>while\<close> loop of \<^verbatim>\<open>get_metric_data_chunked\<close>, with its two
  variables \<^verbatim>\<open>all_datapoints\<close> and \<^verbatim>\<open>chunk_start\<close>. A failing fetch
  ends the loop with the exception.
\<close>

function chunk_loop ::
  "cloudwatch \<Rightarrow> string \<Rightarrow> string \<Rightarrow> dimensions \<Rightarrow> datetime \<Rightarrow> datapoint list \<Rightarrow> datetime
     \<Rightarrow> datapoint list io" where
  "chunk_loop cw namespace metric_name dims end_time all_datapoints chunk_start =
     (if chunk_start < end_time then
        (let chunk_end = min (chunk_start + chunk_size) end_time;
             call = GetMetricStatistics namespace metric_name dims chunk_start chunk_end
         in case get_metric_statistics cw namespace metric_name dims chunk_start chunk_end of
              Inl e \<Rightarrow> ([call], Inl e)
            | Inr datapoints \<Rightarrow>
                (case chunk_loop cw namespace metric_name dims end_time
                        (all_datapoints @ datapoints) chunk_end of
                   (calls, r) \<Rightarrow> (call # calls, r)))
      else ([], Inr all_datapoints))"
  by pat_completeness auto
termination
  by (relation "measure (\<lambda>(cw, ns, m, dims, end_time, acc, chunk_start). nat (end_time - chunk_start))")
     (auto simp: chunk_size_def timedelta_days_def)

declare chunk_loop.simps [simp del]

definition get_metric_data_chunked ::
  "cloudwatch \<Rightarrow> string \<Rightarrow> string \<Rightarrow> dimensions \<Rightarrow> datetime \<Rightarrow> datetime \<Rightarrow> datapoint list io" where
  "get_metric_data_chunked cw namespace metric_name dims start_time end_time =
     chunk_loop cw namespace metric_name dims end_time [] start_time"

text \<open>
  The values that \<^verbatim>\<open>(chunk_start, chunk_end)\<close> take in the loop: the control flow
  of \<open>chunk_loop\<close> without the fetches.
\<close>

function chunk_windows :: "datetime \<Rightarrow> datetime \<Rightarrow> (datetime \<times> datetime) list" where
  "chunk_windows chunk_start end_time =
     (if chunk_start < end_time then
        (let chunk_end = min (chunk_start + chunk_size) end_time
         in (chunk_start, chunk_end) # chunk_windows chunk_end end_time)
      else [])"
  by pat_completeness auto
termination
  by (relation "measure (\<lambda>(chunk_start, end_time). nat (end_time - chunk_start))")
     (auto simp: chunk_size_def timedelta_days_def)

declare chunk_windows.simps [simp del]

text \<open>The sub-intervals of the fetches in a call log, in order.\<close>

fun call_window :: "api_call \<Rightarrow> (datetime \<times> datetime) list" where
  "call_window (GetMetricStatistics ns m dims s e) = [(s, e)]"
| "call_window (ListMetrics ns m dims) = []"

definition windows_of :: "api_call list \<Rightarrow> (datetime \<times> datetime) list" where
  "windows_of calls = concat (map call_window calls)"

text \<open>Each interval of a sequence begins where the one before it ended.\<close>

fun contiguous :: "(datetime \<times> datetime) list \<Rightarrow> bool" where
  "contiguous [] = True"
| "contiguous [w] = True"
| "contiguous (w # w' # ws) = (snd w = fst w' \<and> contiguous (w' # ws))"

subsection \<open>The flat sample table\<close>

text \<open>
  One entry of \<^verbatim>\<open>results\<close>, a row of the data frame. \<^verbatim>\<open>VPC_ID\<close> and
  \<^verbatim>\<open>VPC_Name\<close> may be \<^verbatim>\<open>None\<close>.
\<close>

record row =
  Account_ID :: string
  Region :: string
  Gateway_Type :: string
  Gateway_ID :: string
  Gateway_Name :: string
  VPC_ID :: "string option"
  VPC_Name :: "string option"
  Metric :: string
  Timestamp :: datetime
  Sum :: real
  Average :: real
  Maximum :: real
  Minimum :: real

text \<open>
  A gateway as the collector sees it after discovery: its id
  (\<^verbatim>\<open>nat["NatGatewayId"]\<close>, \<^verbatim>\<open>igw["InternetGatewayId"]\<close>) and the triple
  returned by \<^verbatim>\<open>get_gateway_info\<close>. The EC2 calls that produce them are outside
  the collector's metric logic and are taken as given.
\<close>

record gateway =
  gw_id :: string
  gw_name :: string
  gw_vpc_id :: "string option"
  gw_vpc_name :: "string option"

definition get_or :: "'a option \<Rightarrow> 'a \<Rightarrow> 'a" where
  "get_or v d = (case v of None \<Rightarrow> d | Some x \<Rightarrow> x)"

definition sample_row ::
  "string \<Rightarrow> string \<Rightarrow> string \<Rightarrow> gateway \<Rightarrow> string \<Rightarrow> datapoint \<Rightarrow> row" where
  "sample_row account_id region gateway_type g metric dp =
     \<lparr>Account_ID = account_id, Region = region, Gateway_Type = gateway_type,
      Gateway_ID = gw_id g, Gateway_Name = gw_name g,
      VPC_ID = gw_vpc_id g, VPC_Name = gw_vpc_name g, Metric = metric,
      Timestamp = dp_Timestamp dp,
      Sum = get_or (dp_Sum dp) 0, Average = get_or (dp_Average dp) 0,
      Maximum = get_or (dp_Maximum dp) 0, Minimum = get_or (dp_Minimum dp) 0\<rparr>"

definition placeholder_row ::
  "string \<Rightarrow> string \<Rightarrow> gateway \<Rightarrow> string \<Rightarrow> datetime \<Rightarrow> row" where
  "placeholder_row account_id region g metric start_time =
     \<lparr>Account_ID = account_id, Region = region, Gateway_Type = ''IGW'',
      Gateway_ID = gw_id g, Gateway_Name = gw_name g,
      VPC_ID = gw_vpc_id g, VPC_Name = gw_vpc_name g, Metric = metric,
      Timestamp = start_time, Sum = 0, Average = 0, Maximum = 0, Minimum = 0\<rparr>"

subsection \<open>The collector\<close>

text \<open>
  A \<^verbatim>\<open>for\<close> loop whose body extends \<^verbatim>\<open>results\<close>; an exception in the
  body leaves the loop.
\<close>

fun for_each :: "('a \<Rightarrow> row list \<Rightarrow> row list io) \<Rightarrow> 'a list \<Rightarrow> row list \<Rightarrow> row list io" where
  "for_each body [] results = return_io results"
| "for_each body (x # xs) results = bind_io (body x results) (for_each body xs)"

text \<open>The body of \<^verbatim>\<open>for metric in NAT_METRICS\<close>.\<close>

definition nat_metric_step ::
  "cloudwatch \<Rightarrow> string \<Rightarrow> string \<Rightarrow> datetime \<Rightarrow> datetime \<Rightarrow> gateway \<Rightarrow> string
     \<Rightarrow> row list \<Rightarrow> row list io" where
  "nat_metric_step cw account_id region start_time end_time natgw metric results =
     bind_io
       (get_metric_data_chunked cw ''AWS/NATGateway'' metric
          [(''NatGatewayId'', gw_id natgw)] start_time end_time)
       (\<lambda>datapoints.
          return_io (results @ map (sample_row account_id region ''NAT'' natgw metric) datapoints))"

text \<open>
  The first half of the body of \<^verbatim>\<open>for metric in IGW_METRICS\<close>: the probe with
  \<^verbatim>\<open>list_metrics\<close> and the value it leaves in \<^verbatim>\<open>datapoints\<close>.
\<close>

definition igw_datapoints ::
  "cloudwatch \<Rightarrow> string \<Rightarrow> string \<Rightarrow> datetime \<Rightarrow> datetime \<Rightarrow> datapoint list io" where
  "igw_datapoints cw igw_id metric start_time end_time =
     bind_io
       ([ListMetrics ''AWS/IGW'' metric [(''InternetGatewayId'', igw_id)]],
        list_metrics cw ''AWS/IGW'' metric [(''InternetGatewayId'', igw_id)])
       (\<lambda>metric_exists.
          if metric_exists \<noteq> [] then
            get_metric_data_chunked cw ''AWS/IGW'' metric
              [(''InternetGatewayId'', igw_id)] start_time end_time
          else return_io [])"

definition igw_metric_step ::
  "cloudwatch \<Rightarrow> string \<Rightarrow> string \<Rightarrow> datetime \<Rightarrow> datetime \<Rightarrow> gateway \<Rightarrow> string
     \<Rightarrow> row list \<Rightarrow> row list io" where
  "igw_metric_step cw account_id region start_time end_time igw metric results =
     bind_io (igw_datapoints cw (gw_id igw) metric start_time end_time)
       (\<lambda>datapoints.
          let results' =
                (if datapoints = [] then
                   results @ [placeholder_row account_id region igw metric start_time]
                 else results)
          in return_io
               (results' @ map (sample_row account_id region ''IGW'' igw metric) datapoints))"

text \<open>
  \<^verbatim>\<open>collect_metrics\<close>: \<open>now\<close> is the value of
  \<^verbatim>\<open>datetime.now(timezone.utc)\<close>, \<open>nats\<close> and \<open>igws\<close> the gateways found.
\<close>

definition collect_metrics ::
  "cloudwatch \<Rightarrow> string \<Rightarrow> string \<Rightarrow> int \<Rightarrow> datetime \<Rightarrow> gateway list \<Rightarrow> gateway list
     \<Rightarrow> row list io" where
  "collect_metrics cw region account_id days now nats igws =
     (let end_time = now;
          start_time = end_time - timedelta_days days
      in bind_io
           (for_each
              (\<lambda>natgw. for_each (nat_metric_step cw account_id region start_time end_time natgw)
                        NAT_METRICS)
              nats [])
           (for_each
              (\<lambda>igw. for_each (igw_metric_step cw account_id region start_time end_time igw)
                        IGW_METRICS)
              igws))"

section \<open>Analysis\<close>

text \<open>
  A summary is a Python dictionary from column names to strings, numbers or
  \<^verbatim>\<open>None\<close>.
\<close>

datatype cell = Str string | Num real | NoneCell

type_synonym summary = "string \<rightharpoonup> cell"

definition opt_cell :: "string option \<Rightarrow> cell" where
  "opt_cell v = (case v of None \<Rightarrow> NoneCell | Some s \<Rightarrow> Str s)"

definition dict_get :: "summary \<Rightarrow> string \<Rightarrow> cell \<Rightarrow> cell" where
  "dict_get d k dflt = (case d k of None \<Rightarrow> dflt | Some v \<Rightarrow> v)"

definition bind_err :: "py_error + 'a \<Rightarrow> ('a \<Rightarrow> py_error + 'b) \<Rightarrow> py_error + 'b" where
  "bind_err m f = (case m of Inl e \<Rightarrow> Inl e | Inr x \<Rightarrow> f x)"

fun py_add :: "cell \<Rightarrow> cell \<Rightarrow> py_error + real" where
  "py_add (Num a) (Num b) = Inr (a + b)"
| "py_add _ _ = Inl TypeError"

definition py_truediv :: "real \<Rightarrow> real \<Rightarrow> py_error + real" where
  "py_truediv a b = (if b = 0 then Inl ZeroDivisionError else Inr (a / b))"

text \<open>
  \<^verbatim>\<open>round(x, 2)\<close> on the exact value of \<open>x\<close>: to the nearest multiple of
  \<open>1/100\<close>, a tie to the even one.
\<close>

definition round_half_even :: "real \<Rightarrow> int" where
  "round_half_even y =
     (let f = \<lfloor>y\<rfloor>; d = y - of_int f
      in if d < 1 / 2 then f else if 1 / 2 < d then f + 1
         else if even f then f else f + 1)"

definition round2 :: "real \<Rightarrow> real" where
  "round2 x = of_int (round_half_even (x * 100)) / 100"

text \<open>\<^verbatim>\<open>sub in s\<close> on strings.\<close>

fun contains :: "string \<Rightarrow> string \<Rightarrow> bool" where
  "contains sub [] = (sub = [])"
| "contains sub (c # cs) = (take (length sub) (c # cs) = sub \<or> contains sub cs)"

definition traffic_metrics :: "string list \<Rightarrow> string list" where
  "traffic_metrics metrics_list =
     filter (\<lambda>m. contains ''Bytes'' m \<or> contains ''Packets'' m) metrics_list"

text \<open>pandas' \<^verbatim>\<open>unique()\<close>: the distinct values, in order of first appearance.\<close>

definition unique :: "'a list \<Rightarrow> 'a list" where
  "unique xs = rev (remdups (rev xs))"

text \<open>\<^verbatim>\<open>gw[cond]["Sum"].sum()\<close>; the sum of no rows is 0.\<close>

definition sum_where :: "(row \<Rightarrow> bool) \<Rightarrow> row list \<Rightarrow> real" where
  "sum_where cond gw = sum_list (map Sum (filter cond gw))"

text \<open>
  \<^verbatim>\<open>max()\<close> and \<^verbatim>\<open>mean()\<close> of a column; \<^verbatim>\<open>_nat_summary\<close> takes
  them of a selection it has checked to be non-empty.
\<close>

fun column_max :: "real list \<Rightarrow> real" where
  "column_max [] = 0"
| "column_max (x # xs) = fold max xs x"

definition column_mean :: "real list \<Rightarrow> real" where
  "column_mean xs = sum_list xs / real (length xs)"

definition nat_summary :: "row list \<Rightarrow> summary" where
  "nat_summary gw =
     [''Total_Bytes_In'' \<mapsto>
        Num (sum_where (\<lambda>r. Metric r \<in> set [''BytesInFromSource'', ''BytesInFromDestination'']) gw),
      ''Total_Bytes_Out'' \<mapsto>
        Num (sum_where (\<lambda>r. Metric r \<in> set [''BytesOutToSource'', ''BytesOutToDestination'']) gw),
      ''Total_Packets_In'' \<mapsto>
        Num (sum_where (\<lambda>r. Metric r \<in> set [''PacketsInFromSource'', ''PacketsInFromDestination'']) gw),
      ''Total_Packets_Out'' \<mapsto>
        Num (sum_where (\<lambda>r. Metric r \<in> set [''PacketsOutToSource'', ''PacketsOutToDestination'']) gw),
      ''Total_Connection_Attempts'' \<mapsto>
        Num (sum_where (\<lambda>r. Metric r = ''ConnectionAttemptCount'') gw),
      ''Total_Connection_Timeouts'' \<mapsto>
        Num (sum_where (\<lambda>r. Metric r = ''IdleTimeoutCount'') gw),
      ''Port_Allocation_Errors'' \<mapsto>
        Num (sum_where (\<lambda>r. Metric r = ''ErrorPortAllocation'') gw),
      ''Max_Active_Connections'' \<mapsto>
        Num (if ''ActiveConnectionCount'' \<in> set (map Metric gw)
             then column_max (map Maximum (filter (\<lambda>r. Metric r = ''ActiveConnectionCount'') gw))
             else 0),
      ''Avg_Active_Connections'' \<mapsto>
        Num (if ''ActiveConnectionCount'' \<in> set (map Metric gw)
             then column_mean (map Average (filter (\<lambda>r. Metric r = ''ActiveConnectionCount'') gw))
             else 0)]"

definition igw_summary :: "row list \<Rightarrow> summary" where
  "igw_summary gw =
     [''Total_Bytes_In'' \<mapsto> Num (sum_where (\<lambda>r. Metric r = ''BytesInFromDestination'') gw),
      ''Total_Bytes_Out'' \<mapsto> Num (sum_where (\<lambda>r. Metric r = ''BytesOutToDestination'') gw),
      ''Total_Packets_In'' \<mapsto> Num (sum_where (\<lambda>r. Metric r = ''PacketsInFromDestination'') gw),
      ''Total_Packets_Out'' \<mapsto> Num (sum_where (\<lambda>r. Metric r = ''PacketsOutToDestination'') gw),
      ''Total_Blackhole_Drops_Bytes'' \<mapsto>
        Num (sum_where (\<lambda>r. Metric r = ''BytesDropCountBlackholeIPv4'') gw),
      ''Total_NoRoute_Drops_Bytes'' \<mapsto>
        Num (sum_where (\<lambda>r. Metric r = ''BytesDropCountNoRouteIPv4'') gw),
      ''Total_Blackhole_Drops_Packets'' \<mapsto>
        Num (sum_where (\<lambda>r. Metric r = ''PacketsDropCountBlackholeIPv4'') gw),
      ''Total_NoRoute_Drops_Packets'' \<mapsto>
        Num (sum_where (\<lambda>r. Metric r = ''PacketsDropCountNoRouteIPv4'') gw),
      ''Status'' \<mapsto> Str (if list_all (\<lambda>r. Sum r = 0) gw then ''Inactive'' else ''Active'')]"

text \<open>
  Lines 284 to 290 of \<^verbatim>\<open>analyze_idle_time\<close>: \<^verbatim>\<open>total_periods\<close>,
  \<^verbatim>\<open>idle_periods\<close> and \<^verbatim>\<open>idle_pct\<close> of the rows \<open>gw\<close> of one
  gateway.
\<close>

definition total_periods_of :: "row list \<Rightarrow> nat" where
  "total_periods_of gw = length (unique (map Timestamp gw))"

definition idle_periods_of :: "string list \<Rightarrow> row list \<Rightarrow> nat" where
  "idle_periods_of traffic gw =
     length (unique (map Timestamp (filter (\<lambda>r. Metric r \<in> set traffic \<and> Sum r = 0) gw)))"

definition idle_pct_of :: "nat \<Rightarrow> nat \<Rightarrow> py_error + real" where
  "idle_pct_of idle_periods total_periods =
     (if total_periods > 0 then
        bind_err (py_truediv (real idle_periods) (real total_periods)) (\<lambda>q. Inr (q * 100))
      else Inr 0)"

text \<open>
  Lines 310 to 320: the dictionary of derived totals and rates that updates the summary.
\<close>

definition rate_fields :: "summary \<Rightarrow> nat \<Rightarrow> py_error + summary" where
  "rate_fields summary total_periods =
     bind_err (py_add (dict_get summary ''Total_Bytes_In'' (Num 0))
                      (dict_get summary ''Total_Bytes_Out'' (Num 0)))
       (\<lambda>total_bytes.
     bind_err (py_add (dict_get summary ''Total_Packets_In'' (Num 0))
                      (dict_get summary ''Total_Packets_Out'' (Num 0)))
       (\<lambda>total_packets.
     let secs = (if total_periods > 0 then total_periods * PERIOD_SECONDS else 1)
     in bind_err (py_truediv total_bytes (real secs))
       (\<lambda>bytes_per_second.
     bind_err (py_truediv total_packets (real secs))
       (\<lambda>packets_per_second.
     Inr [''Total_Bytes'' \<mapsto> Num total_bytes,
          ''Total_Packets'' \<mapsto> Num total_packets,
          ''Bytes_Per_Second_Avg'' \<mapsto> Num (round2 bytes_per_second),
          ''Packets_Per_Second_Avg'' \<mapsto> Num (round2 packets_per_second)]))))"

text \<open>
  The body of \<^verbatim>\<open>for gateway_id in gateways\<close> after
  \<^verbatim>\<open>row0 = gw.iloc[0]\<close> (lines 284 to 320), for the rows \<open>gw\<close> of the
  gateway.
\<close>

definition summary_body ::
  "string \<Rightarrow> string \<Rightarrow> string \<Rightarrow> string list \<Rightarrow> string \<Rightarrow> row \<Rightarrow> row list
     \<Rightarrow> py_error + summary" where
  "summary_body account_id region gateway_type traffic gateway_id row0 gw =
     (let total_periods = total_periods_of gw;
          idle_periods = idle_periods_of traffic gw
      in bind_err (idle_pct_of idle_periods total_periods)
        (\<lambda>idle_pct.
           let summary =
                 [''Account_ID'' \<mapsto> Str account_id,
                  ''Region'' \<mapsto> Str region,
                  ''VPC_ID'' \<mapsto> opt_cell (VPC_ID row0),
                  ''VPC_Name'' \<mapsto> opt_cell (VPC_Name row0),
                  ''Gateway_Type'' \<mapsto> Str gateway_type,
                  ''Gateway_ID'' \<mapsto> Str gateway_id,
                  ''Gateway_Name'' \<mapsto> Str (Gateway_Name row0),
                  ''Total_Periods'' \<mapsto> Num (real total_periods),
                  ''Idle_Periods'' \<mapsto> Num (real idle_periods),
                  ''Idle_Percentage'' \<mapsto> Num (round2 idle_pct)];
               summary' =
                 summary ++ (if gateway_type = ''NAT'' then nat_summary gw
                             else igw_summary gw)
           in bind_err (rate_fields summary' total_periods)
                (\<lambda>rates. Inr (summary' ++ rates))))"

text \<open>
  The whole body: \<^verbatim>\<open>gw.iloc[0]\<close> raises on an empty selection.
\<close>

definition gateway_summary ::
  "string \<Rightarrow> string \<Rightarrow> string \<Rightarrow> string list \<Rightarrow> string \<Rightarrow> row list \<Rightarrow> py_error + summary" where
  "gateway_summary account_id region gateway_type traffic gateway_id gw =
     (case gw of
        [] \<Rightarrow> Inl IndexError
      | row0 # _ \<Rightarrow> summary_body account_id region gateway_type traffic gateway_id row0 gw)"

text \<open>A \<^verbatim>\<open>for\<close> loop whose body extends \<^verbatim>\<open>idle_analysis\<close>.\<close>

fun for_each_err ::
  "('a \<Rightarrow> summary list \<Rightarrow> py_error + summary list) \<Rightarrow> 'a list \<Rightarrow> summary list
     \<Rightarrow> py_error + summary list" where
  "for_each_err body [] acc = Inr acc"
| "for_each_err body (x # xs) acc = bind_err (body x acc) (for_each_err body xs)"

definition rows_of :: "row list \<Rightarrow> string \<Rightarrow> string \<Rightarrow> row list" where
  "rows_of df gateway_type gateway_id =
     filter (\<lambda>r. Gateway_Type r = gateway_type \<and> Gateway_ID r = gateway_id) df"

text \<open>
  The body of the outer loop, for one pair \<^verbatim>\<open>(gateway_type, metrics_list)\<close>.
\<close>

definition analyze_kind ::
  "row list \<Rightarrow> string \<Rightarrow> string \<Rightarrow> string \<times> string list \<Rightarrow> summary list
     \<Rightarrow> py_error + summary list" where
  "analyze_kind df account_id region kind idle_analysis =
     (case kind of (gateway_type, metrics_list) \<Rightarrow>
        let traffic = traffic_metrics metrics_list;
            gateways = unique (map Gateway_ID (filter (\<lambda>r. Gateway_Type r = gateway_type) df))
        in for_each_err
             (\<lambda>gateway_id acc.
                bind_err
                  (gateway_summary account_id region gateway_type traffic gateway_id
                     (rows_of df gateway_type gateway_id))
                  (\<lambda>summary. Inr (acc @ [summary])))
             gateways idle_analysis)"

text \<open>
  \<^verbatim>\<open>analyze_idle_time\<close>. The data frame is built from the list of rows; one built
  from no rows has no columns, and selecting \<^verbatim>\<open>df["Gateway_Type"]\<close> raises.
\<close>

definition analyze_idle_time :: "row list \<Rightarrow> string \<Rightarrow> string \<Rightarrow> py_error + summary list" where
  "analyze_idle_time df account_id region =
     (if df = [] then Inl KeyError
      else for_each_err (analyze_kind df account_id region)
             [(''NAT'', NAT_METRICS), (''IGW'', IGW_METRICS)] [])"

section \<open>Example inputs\<close>

text \<open>A client whose every call succeeds with an empty response.\<close>

definition quiet_cloudwatch :: cloudwatch where
  "quiet_cloudwatch =
     \<lparr>get_metric_statistics = (\<lambda>ns m dims s e. Inr []),
      list_metrics = (\<lambda>ns m dims. Inr [])\<rparr>"

text \<open>A client whose every call fails.\<close>

definition failing_cloudwatch :: cloudwatch where
  "failing_cloudwatch =
     \<lparr>get_metric_statistics = (\<lambda>ns m dims s e. Inl ClientError),
      list_metrics = (\<lambda>ns m dims. Inl ClientError)\<rparr>"

text \<open>A row of a table, for the examples: the four statistics are equal.\<close>

definition table_row :: "string \<Rightarrow> string \<Rightarrow> string \<Rightarrow> datetime \<Rightarrow> real \<Rightarrow> row" where
  "table_row gateway_type gateway_id metric ts v =
     \<lparr>Account_ID = ''123456789012'', Region = ''us-east-1'', Gateway_Type = gateway_type,
      Gateway_ID = gateway_id, Gateway_Name = gateway_id, VPC_ID = None, VPC_Name = None,
      Metric = metric, Timestamp = ts, Sum = v, Average = v, Maximum = v, Minimum = v\<rparr>"

text \<open>
  One NAT gateway, one timestamp: bytes came in from the source, none went out to it.
\<close>

definition mixed_traffic_table :: "row list" where
  "mixed_traffic_table =
     [table_row ''NAT'' ''nat-1'' ''BytesInFromSource'' 0 1000,
      table_row ''NAT'' ''nat-1'' ''BytesOutToSource'' 0 0]"

text \<open>
  One Internet Gateway whose traffic counters are zero and that dropped packets in a
  later period.
\<close>

definition active_igw_table :: "row list" where
  "active_igw_table =
     [table_row ''IGW'' ''igw-1'' ''BytesInFromDestination'' 0 0,
      table_row ''IGW'' ''igw-1'' ''PacketsDropCountNoRouteIPv4'' 21600000000 7]"

text \<open>An Internet Gateway and a NAT gateway, for the examples.\<close>

definition example_igw :: gateway where
  "example_igw =
     \<lparr>gw_id = ''igw-1'', gw_name = ''IGW-main'', gw_vpc_id = Some ''vpc-1'',
      gw_vpc_name = Some ''main''\<rparr>"

definition example_nat :: gateway where
  "example_nat =
     \<lparr>gw_id = ''nat-1'', gw_name = ''NAT-main'', gw_vpc_id = Some ''vpc-1'',
      gw_vpc_name = Some ''main''\<rparr>"

section \<open>Notions used in the statements and proofs\<close>

text \<open>A column of the analysis: \<^verbatim>\<open>idle_analysis[key]\<close>.\<close>

definition column :: "string \<Rightarrow> py_error + summary list \<Rightarrow> py_error + cell option list" where
  "column key res = map_sum id (map (\<lambda>s. s key)) res"

text \<open>
  A row that the collector writes for the Internet Gateway \<open>gid\<close> and the metric \<open>m\<close>:
  the zero-valued row at \<open>st\<close> when the pair has no datapoint, the row of one of its
  datapoints otherwise.
\<close>

definition igw_row_of :: "cloudwatch \<Rightarrow> datetime \<Rightarrow> datetime \<Rightarrow> string \<Rightarrow> string \<Rightarrow> row \<Rightarrow> bool" where
  "igw_row_of cw st en gid m row \<longleftrightarrow>
     Gateway_Type row = ''IGW'' \<and> Gateway_ID row = gid \<and> Metric row = m \<and>
     (\<exists>c dps. igw_datapoints cw gid m st en = (c, Inr dps) \<and>
        (if dps = [] then Timestamp row = st \<and> Sum row = 0 \<and> Average row = 0 \<and>
              Maximum row = 0 \<and> Minimum row = 0
         else \<exists>dp \<in> set dps. Timestamp row = dp_Timestamp dp))"


section \<open>Properties of the chunked fetch\<close>

lemma chunk_size_pos: "0 < chunk_size"
  by (simp add: chunk_size_def timedelta_days_def)

lemma chunk_windows_empty: "end_time \<le> chunk_start \<Longrightarrow> chunk_windows chunk_start end_time = []"
  by (simp add: chunk_windows.simps [of chunk_start end_time])

lemma chunk_windows_step:
  "chunk_start < end_time \<Longrightarrow>
   chunk_windows chunk_start end_time =
     (chunk_start, min (chunk_start + chunk_size) end_time)
       # chunk_windows (min (chunk_start + chunk_size) end_time) end_time"
  by (simp add: chunk_windows.simps [of chunk_start end_time] Let_def)

lemma chunk_loop_empty:
  "end_time \<le> chunk_start \<Longrightarrow> chunk_loop cw ns m dims end_time acc chunk_start = ([], Inr acc)"
  by (simp add: chunk_loop.simps [of cw ns m dims end_time acc chunk_start])

lemma chunk_loop_calls:
  "snd (chunk_loop cw ns m dims end_time acc chunk_start) = Inr r \<Longrightarrow>
   fst (chunk_loop cw ns m dims end_time acc chunk_start) =
     map (\<lambda>(s, e). GetMetricStatistics ns m dims s e) (chunk_windows chunk_start end_time)"
proof (induction cw ns m dims end_time acc chunk_start rule: chunk_loop.induct)
  case (1 cw ns m dims end_time acc chunk_start)
  show ?case
  proof (cases "chunk_start < end_time")
    case False
    then show ?thesis by (simp add: chunk_loop_empty chunk_windows_empty)
  next
    case True
    let ?ce = "min (chunk_start + chunk_size) end_time"
    show ?thesis
    proof (cases "get_metric_statistics cw ns m dims chunk_start ?ce")
      case (Inl e)
      with True "1.prems" show ?thesis
        by (simp add: chunk_loop.simps [of cw ns m dims end_time acc chunk_start] Let_def)
    next
      case (Inr dps)
      with True "1.prems" have "snd (chunk_loop cw ns m dims end_time (acc @ dps) ?ce) = Inr r"
        by (simp add: chunk_loop.simps [of cw ns m dims end_time acc chunk_start] Let_def
            split: prod.splits)
      with "1.IH" [OF True refl refl Inr] True Inr show ?thesis
        by (cases "chunk_loop cw ns m dims end_time (acc @ dps) ?ce")
           (simp add: chunk_loop.simps [of cw ns m dims end_time acc chunk_start] Let_def
            chunk_windows_step [of chunk_start])
    qed
  qed
qed

lemma chunk_windows_hd:
  "chunk_start < end_time \<Longrightarrow> fst (hd (chunk_windows chunk_start end_time)) = chunk_start"
  by (simp add: chunk_windows_step)

lemma chunk_windows_nonempty:
  "chunk_start < end_time \<Longrightarrow> chunk_windows chunk_start end_time \<noteq> []"
  by (simp add: chunk_windows_step)

lemma chunk_windows_last:
  "chunk_start < end_time \<Longrightarrow> snd (last (chunk_windows chunk_start end_time)) = end_time"
proof (induction chunk_start end_time rule: chunk_windows.induct)
  case (1 chunk_start end_time)
  let ?ce = "min (chunk_start + chunk_size) end_time"
  show ?case
  proof (cases "?ce < end_time")
    case True
    with "1.IH" [OF "1.prems" refl] "1.prems" show ?thesis
      by (simp add: chunk_windows_step [of chunk_start] chunk_windows_nonempty)
  next
    case False
    then have "?ce = end_time" by simp
    with "1.prems" show ?thesis
      by (simp add: chunk_windows_step [of chunk_start] chunk_windows_empty)
  qed
qed

lemma chunk_windows_contiguous: "contiguous (chunk_windows chunk_start end_time)"
proof (induction chunk_start end_time rule: chunk_windows.induct)
  case (1 chunk_start end_time)
  show ?case
  proof (cases "chunk_start < end_time")
    case False
    then show ?thesis by (simp add: chunk_windows_empty)
  next
    case True
    let ?ce = "min (chunk_start + chunk_size) end_time"
    show ?thesis
    proof (cases "?ce < end_time")
      case False
      with True show ?thesis
        by (simp add: chunk_windows_step [of chunk_start] chunk_windows_empty)
    next
      case ce: True
      from "1.IH" [OF True refl] have "contiguous (chunk_windows ?ce end_time)" .
      moreover from ce obtain w ws where "chunk_windows ?ce end_time = w # ws" "fst w = ?ce"
        using chunk_windows_step [of ?ce end_time] by simp
      ultimately show ?thesis
        using True by (simp add: chunk_windows_step [of chunk_start end_time])
    qed
  qed
qed

lemma chunk_windows_bounded:
  "(s, e) \<in> set (chunk_windows chunk_start end_time) \<Longrightarrow> s < e \<and> e - s \<le> chunk_size"
proof (induction chunk_start end_time rule: chunk_windows.induct)
  case (1 chunk_start end_time)
  show ?case
  proof (cases "chunk_start < end_time")
    case False
    with "1.prems" show ?thesis by (simp add: chunk_windows_empty)
  next
    case True
    with "1.prems" "1.IH" [OF True refl] chunk_size_pos show ?thesis
      by (auto simp: chunk_windows_step [of chunk_start])
  qed
qed

lemma chunk_windows_65:
  "chunk_windows start (start + timedelta_days 65) =
     [(start, start + timedelta_days 30),
      (start + timedelta_days 30, start + timedelta_days 60),
      (start + timedelta_days 60, start + timedelta_days 65)]"
proof -
  let ?e = "start + timedelta_days 65"
  have "chunk_windows start ?e = (start, start + timedelta_days 30)
          # chunk_windows (start + timedelta_days 30) ?e"
    by (simp add: chunk_windows_step chunk_size_def timedelta_days_def)
  moreover have "chunk_windows (start + timedelta_days 30) ?e =
      (start + timedelta_days 30, start + timedelta_days 60)
          # chunk_windows (start + timedelta_days 60) ?e"
    by (simp add: chunk_windows_step chunk_size_def timedelta_days_def)
  moreover have "chunk_windows (start + timedelta_days 60) ?e =
      (start + timedelta_days 60, ?e) # chunk_windows ?e ?e"
    by (simp add: chunk_windows_step chunk_size_def timedelta_days_def)
  moreover have "chunk_windows ?e ?e = []"
    by (simp add: chunk_windows_empty)
  ultimately show ?thesis by simp
qed

lemma windows_of_fetches:
  "windows_of (map (\<lambda>(s, e). GetMetricStatistics ns m dims s e) ws) = ws"
  by (induction ws) (auto simp: windows_of_def)

lemma chunk_loop_quiet:
  "chunk_loop quiet_cloudwatch ns m dims end_time acc chunk_start =
     (map (\<lambda>(s, e). GetMetricStatistics ns m dims s e) (chunk_windows chunk_start end_time),
      Inr acc)"
proof (induction quiet_cloudwatch ns m dims end_time acc chunk_start rule: chunk_loop.induct)
  case (1 ns m dims end_time acc chunk_start)
  show ?case
  proof (cases "chunk_start < end_time")
    case False
    then show ?thesis by (simp add: chunk_loop_empty chunk_windows_empty)
  next
    case True
    have q: "get_metric_statistics quiet_cloudwatch ns m dims chunk_start
               (min (chunk_start + chunk_size) end_time) = Inr []"
      by (simp add: quiet_cloudwatch_def)
    from "1.hyps" [OF True refl refl q] True q show ?thesis
      by (simp add: chunk_loop.simps [of quiet_cloudwatch ns m dims end_time acc chunk_start]
          Let_def chunk_windows_step [of chunk_start])
  qed
qed

text \<open>
  C2. Whenever the chunked fetch returns (no fetch failed), the sub-intervals it fetched,
  in order, start at \<open>start_time\<close>, end exactly at \<open>end_time\<close>, each begin where the
  previous one ended, and are each non-empty and at most 30 days long; for
  \<open>end_time \<le> start_time\<close> there is none; a 65-day interval gives three, of 30, 30 and
  5 days.
\<close>

theorem chunked_fetch_windows:
  assumes "snd (get_metric_data_chunked cw ns m dims start_time end_time) = Inr r"
  shows "let ws = windows_of (fst (get_metric_data_chunked cw ns m dims start_time end_time))
         in (start_time < end_time \<longrightarrow>
               ws \<noteq> [] \<and> fst (hd ws) = start_time \<and> snd (last ws) = end_time)
          \<and> contiguous ws
          \<and> (\<forall>(s, e) \<in> set ws. s < e \<and> e - s \<le> timedelta_days 30)
          \<and> (end_time \<le> start_time \<longrightarrow> ws = [])
          \<and> (end_time = start_time + timedelta_days 65 \<longrightarrow>
               ws = [(start_time, start_time + timedelta_days 30),
                     (start_time + timedelta_days 30, start_time + timedelta_days 60),
                     (start_time + timedelta_days 60, start_time + timedelta_days 65)])"
proof -
  have ws: "windows_of (fst (get_metric_data_chunked cw ns m dims start_time end_time))
              = chunk_windows start_time end_time"
    using assms chunk_loop_calls [of cw ns m dims end_time "[]" start_time r]
    by (simp add: get_metric_data_chunked_def windows_of_fetches)
  have "\<forall>(s, e) \<in> set (chunk_windows start_time end_time). s < e \<and> e - s \<le> timedelta_days 30"
    using chunk_windows_bounded [of _ _ start_time end_time]
    by (auto simp: chunk_size_def)
  then show ?thesis
    unfolding ws Let_def
    using chunk_windows_nonempty [of start_time end_time]
      chunk_windows_hd [of start_time end_time]
      chunk_windows_last [of start_time end_time]
      chunk_windows_contiguous [of start_time end_time]
      chunk_windows_empty [of end_time start_time]
      chunk_windows_65 [of start_time]
    by blast
qed

theorem chunked_fetch_windows_witness:
  "snd (get_metric_data_chunked quiet_cloudwatch ''AWS/NATGateway'' ''BytesInFromSource''
          [(''NatGatewayId'', ''nat-1'')] 0 (timedelta_days 65)) = Inr []
   \<and> windows_of (fst (get_metric_data_chunked quiet_cloudwatch ''AWS/NATGateway''
          ''BytesInFromSource'' [(''NatGatewayId'', ''nat-1'')] 0 (timedelta_days 65)))
       = [(0, timedelta_days 30), (timedelta_days 30, timedelta_days 60),
          (timedelta_days 60, timedelta_days 65)]"
proof -
  have h: "snd (get_metric_data_chunked quiet_cloudwatch ''AWS/NATGateway'' ''BytesInFromSource''
          [(''NatGatewayId'', ''nat-1'')] 0 (timedelta_days 65)) = Inr []"
    by (simp add: get_metric_data_chunked_def chunk_loop_quiet)
  from chunked_fetch_windows [OF h] h show ?thesis
    by (simp add: Let_def)
qed

text \<open>
  C6 (as stated, refuted). An interval with \<open>end_time < start_time\<close> is not rejected: the
  chunked fetch returns the empty list of datapoints, with no error and no fetch.
\<close>

theorem reversed_interval_not_rejected:
  "get_metric_data_chunked quiet_cloudwatch ''AWS/NATGateway'' ''BytesInFromSource''
     [(''NatGatewayId'', ''nat-1'')] 10 0 = ([], Inr [])"
  by (simp add: get_metric_data_chunked_def chunk_loop_empty)

text \<open>
  C6 (amended). For every client, also one whose fetches fail, an interval with
  \<open>end_time < start_time\<close> is processed as an empty window: no call is made and the
  result is the empty list of datapoints, not an error.
\<close>

theorem reversed_interval_empty:
  "end_time < start_time \<Longrightarrow>
   get_metric_data_chunked cw ns m dims start_time end_time = ([], Inr [])"
  by (simp add: get_metric_data_chunked_def chunk_loop_empty)

theorem reversed_interval_empty_witness:
  "(0::int) < 10 \<and>
   get_metric_data_chunked failing_cloudwatch ''AWS/IGW'' ''BytesInFromDestination''
     [(''InternetGatewayId'', ''igw-1'')] 10 0 = ([], Inr [])"
  using reversed_interval_empty [of 0 10 failing_cloudwatch "''AWS/IGW''"
      "''BytesInFromDestination''" "[(''InternetGatewayId'', ''igw-1'')]"]
  by simp

section \<open>Properties of the analysis\<close>

lemma bind_err_Inl [simp]: "bind_err (Inl e) f = Inl e"
  by (simp add: bind_err_def)

lemma bind_err_Inr [simp]: "bind_err (Inr x) f = f x"
  by (simp add: bind_err_def)

lemma bind_err_eq_Inr:
  "bind_err m f = Inr y \<longleftrightarrow> (\<exists>x. m = Inr x \<and> f x = Inr y)"
  by (cases m) simp_all

lemma for_each_err_append:
  "for_each_err (\<lambda>x acc. bind_err (f x) (\<lambda>s. Inr (acc @ [s]))) xs acc = Inr r \<Longrightarrow>
   \<exists>ss. r = acc @ ss \<and> list_all2 (\<lambda>x s. f x = Inr s) xs ss"
proof (induction xs arbitrary: acc)
  case Nil
  then show ?case by simp
next
  case (Cons x xs)
  from Cons.prems obtain s where s: "f x = Inr s"
    and rest: "for_each_err (\<lambda>x acc. bind_err (f x) (\<lambda>s. Inr (acc @ [s]))) xs (acc @ [s]) = Inr r"
    by (auto simp: bind_err_eq_Inr)
  from Cons.IH [OF rest] obtain ss where "r = (acc @ [s]) @ ss"
    and "list_all2 (\<lambda>x s. f x = Inr s) xs ss" by blast
  with s have "r = acc @ (s # ss) \<and> list_all2 (\<lambda>x s. f x = Inr s) (x # xs) (s # ss)"
    by simp
  then show ?case by blast
qed

lemma for_each_err_total:
  "\<forall>x \<in> set xs. \<exists>s. f x = Inr s \<Longrightarrow>
   \<exists>r. for_each_err (\<lambda>x acc. bind_err (f x) (\<lambda>s. Inr (acc @ [s]))) xs acc = Inr r"
proof (induction xs arbitrary: acc)
  case Nil
  then show ?case by simp
next
  case (Cons x xs)
  from Cons.prems obtain s where s: "f x = Inr s" by auto
  from Cons.prems have "\<forall>x \<in> set xs. \<exists>s. f x = Inr s" by simp
  from Cons.IH [OF this, of "acc @ [s]"] s show ?case by simp
qed

lemma set_unique [simp]: "set (unique xs) = set xs"
  by (simp add: unique_def)

lemma distinct_unique [simp]: "distinct (unique xs)"
  by (simp add: unique_def)

lemma length_unique: "length (unique xs) = card (set xs)"
  using distinct_card [of "unique xs"] by simp

lemma list_all2_right_ex: "list_all2 P xs ys \<Longrightarrow> y \<in> set ys \<Longrightarrow> \<exists>x \<in> set xs. P x y"
  by (induction rule: list_all2_induct) auto

lemma list_all2_left_ex: "list_all2 P xs ys \<Longrightarrow> x \<in> set xs \<Longrightarrow> \<exists>y \<in> set ys. P x y"
  by (induction rule: list_all2_induct) auto

lemma analyze_kind_origin:
  assumes "analyze_kind df a r (gt, ml) acc = Inr res"
  shows "\<exists>ss. res = acc @ ss \<and>
           (\<forall>s \<in> set ss. \<exists>row \<in> set df. Gateway_Type row = gt \<and>
              gateway_summary a r gt (traffic_metrics ml) (Gateway_ID row)
                (rows_of df gt (Gateway_ID row)) = Inr s) \<and>
           (\<forall>row \<in> set df. Gateway_Type row = gt \<longrightarrow>
              (\<exists>s \<in> set ss. gateway_summary a r gt (traffic_metrics ml) (Gateway_ID row)
                (rows_of df gt (Gateway_ID row)) = Inr s))"
proof -
  let ?ids = "unique (map Gateway_ID (filter (\<lambda>r. Gateway_Type r = gt) df))"
  let ?f = "\<lambda>gid. gateway_summary a r gt (traffic_metrics ml) gid (rows_of df gt gid)"
  from assms have "for_each_err (\<lambda>x acc. bind_err (?f x) (\<lambda>s. Inr (acc @ [s]))) ?ids acc = Inr res"
    by (simp add: analyze_kind_def Let_def)
  from for_each_err_append [OF this] obtain ss where res: "res = acc @ ss"
    and all2: "list_all2 (\<lambda>x s. ?f x = Inr s) ?ids ss" by blast
  have ids: "set ?ids = {Gateway_ID row | row. row \<in> set df \<and> Gateway_Type row = gt}"
    by auto
  have "\<forall>s \<in> set ss. \<exists>gid \<in> set ?ids. ?f gid = Inr s"
    using list_all2_right_ex [OF all2] by blast
  moreover have "\<forall>gid \<in> set ?ids. \<exists>s \<in> set ss. ?f gid = Inr s"
    using list_all2_left_ex [OF all2] by blast
  ultimately show ?thesis
    using res unfolding ids by blast
qed

text \<open>
  Every summary of the analysis is the summary of one gateway of the table, computed from
  the rows of that gateway and kind; and every gateway of kind NAT or IGW in the table
  has one.
\<close>

lemma analyze_idle_time_origin:
  assumes "analyze_idle_time df a r = Inr res" and "s \<in> set res"
  shows "\<exists>row gt ml. row \<in> set df \<and> Gateway_Type row = gt \<and>
           (gt = ''NAT'' \<and> ml = NAT_METRICS \<or> gt = ''IGW'' \<and> ml = IGW_METRICS) \<and>
           gateway_summary a r gt (traffic_metrics ml) (Gateway_ID row)
             (rows_of df gt (Gateway_ID row)) = Inr s"
proof -
  from assms(1) obtain r1 where r1: "analyze_kind df a r (''NAT'', NAT_METRICS) [] = Inr r1"
    and r2: "analyze_kind df a r (''IGW'', IGW_METRICS) r1 = Inr res"
    by (auto simp: analyze_idle_time_def bind_err_eq_Inr split: if_splits)
  from analyze_kind_origin [OF r1] obtain ss1 where 1: "r1 = ss1"
    and o1: "\<forall>s \<in> set ss1. \<exists>row \<in> set df. Gateway_Type row = ''NAT'' \<and>
              gateway_summary a r ''NAT'' (traffic_metrics NAT_METRICS) (Gateway_ID row)
                (rows_of df ''NAT'' (Gateway_ID row)) = Inr s"
    by auto
  from analyze_kind_origin [OF r2] obtain ss2 where 2: "res = r1 @ ss2"
    and o2: "\<forall>s \<in> set ss2. \<exists>row \<in> set df. Gateway_Type row = ''IGW'' \<and>
              gateway_summary a r ''IGW'' (traffic_metrics IGW_METRICS) (Gateway_ID row)
                (rows_of df ''IGW'' (Gateway_ID row)) = Inr s"
    by auto
  from assms(2) 1 2 have "s \<in> set ss1 \<or> s \<in> set ss2" by simp
  then show ?thesis
  proof
    assume "s \<in> set ss1"
    with o1 obtain row where "row \<in> set df" "Gateway_Type row = ''NAT''"
      "gateway_summary a r ''NAT'' (traffic_metrics NAT_METRICS) (Gateway_ID row)
                (rows_of df ''NAT'' (Gateway_ID row)) = Inr s" by blast
    then show ?thesis by (intro exI [of _ row] exI [of _ "''NAT''"] exI [of _ NAT_METRICS]) simp
  next
    assume "s \<in> set ss2"
    with o2 obtain row where "row \<in> set df" "Gateway_Type row = ''IGW''"
      "gateway_summary a r ''IGW'' (traffic_metrics IGW_METRICS) (Gateway_ID row)
                (rows_of df ''IGW'' (Gateway_ID row)) = Inr s" by blast
    then show ?thesis by (intro exI [of _ row] exI [of _ "''IGW''"] exI [of _ IGW_METRICS]) simp
  qed
qed

lemma analyze_idle_time_cover:
  assumes "analyze_idle_time df a r = Inr res" and "row \<in> set df"
    and "Gateway_Type row = ''NAT'' \<and> ml = NAT_METRICS \<or> Gateway_Type row = ''IGW'' \<and> ml = IGW_METRICS"
  shows "\<exists>s \<in> set res.
           gateway_summary a r (Gateway_Type row) (traffic_metrics ml) (Gateway_ID row)
             (rows_of df (Gateway_Type row) (Gateway_ID row)) = Inr s"
proof -
  from assms(1) obtain r1 where r1: "analyze_kind df a r (''NAT'', NAT_METRICS) [] = Inr r1"
    and r2: "analyze_kind df a r (''IGW'', IGW_METRICS) r1 = Inr res"
    by (auto simp: analyze_idle_time_def bind_err_eq_Inr split: if_splits)
  from analyze_kind_origin [OF r1] obtain ss1 where 1: "r1 = ss1"
    and c1: "\<forall>row \<in> set df. Gateway_Type row = ''NAT'' \<longrightarrow>
              (\<exists>s \<in> set ss1. gateway_summary a r ''NAT'' (traffic_metrics NAT_METRICS) (Gateway_ID row)
                (rows_of df ''NAT'' (Gateway_ID row)) = Inr s)"
    by auto
  from analyze_kind_origin [OF r2] obtain ss2 where 2: "res = r1 @ ss2"
    and c2: "\<forall>row \<in> set df. Gateway_Type row = ''IGW'' \<longrightarrow>
              (\<exists>s \<in> set ss2. gateway_summary a r ''IGW'' (traffic_metrics IGW_METRICS) (Gateway_ID row)
                (rows_of df ''IGW'' (Gateway_ID row)) = Inr s)"
    by auto
  from assms(3) show ?thesis
  proof
    assume k: "Gateway_Type row = ''NAT'' \<and> ml = NAT_METRICS"
    with bspec [OF c1 assms(2)] obtain s where "s \<in> set ss1"
      "gateway_summary a r ''NAT'' (traffic_metrics NAT_METRICS) (Gateway_ID row)
                (rows_of df ''NAT'' (Gateway_ID row)) = Inr s" by blast
    with k 1 2 show ?thesis by (intro bexI [of _ s]) simp_all
  next
    assume k: "Gateway_Type row = ''IGW'' \<and> ml = IGW_METRICS"
    with bspec [OF c2 assms(2)] obtain s where "s \<in> set ss2"
      "gateway_summary a r ''IGW'' (traffic_metrics IGW_METRICS) (Gateway_ID row)
                (rows_of df ''IGW'' (Gateway_ID row)) = Inr s" by blast
    with k 1 2 show ?thesis by (intro bexI [of _ s]) simp_all
  qed
qed

lemma total_periods_pos: "gw \<noteq> [] \<Longrightarrow> 0 < total_periods_of gw"
  by (simp add: total_periods_of_def length_unique card_gt_0_iff)

lemma idle_le_total: "idle_periods_of traffic gw \<le> total_periods_of gw"
  unfolding idle_periods_of_def total_periods_of_def length_unique
  by (rule card_mono) auto

lemma idle_pct_of_eq:
  "idle_pct_of i t = Inr (if 0 < t then real i / real t * 100 else 0)"
  by (simp add: idle_pct_of_def py_truediv_def)

lemma rate_fields_eq:
  assumes "summary ''Total_Bytes_In'' = Some (Num b_in)"
    and "summary ''Total_Bytes_Out'' = Some (Num b_out)"
    and "summary ''Total_Packets_In'' = Some (Num p_in)"
    and "summary ''Total_Packets_Out'' = Some (Num p_out)"
  shows "rate_fields summary t =
     Inr [''Total_Bytes'' \<mapsto> Num (b_in + b_out),
          ''Total_Packets'' \<mapsto> Num (p_in + p_out),
          ''Bytes_Per_Second_Avg'' \<mapsto>
             Num (round2 ((b_in + b_out) / real (max (t * PERIOD_SECONDS) 1))),
          ''Packets_Per_Second_Avg'' \<mapsto>
             Num (round2 ((p_in + p_out) / real (max (t * PERIOD_SECONDS) 1)))]"
proof -
  have secs: "(if 0 < t then t * PERIOD_SECONDS else 1) = max (t * PERIOD_SECONDS) 1"
    by (cases t) (simp_all add: PERIOD_SECONDS_def)
  have pos: "real (max (t * PERIOD_SECONDS) 1) \<noteq> 0"
    by simp
  show ?thesis
    unfolding rate_fields_def dict_get_def assms Let_def secs
    using pos by (simp add: py_truediv_def)
qed

lemma nat_summary_totals:
  "nat_summary gw ''Total_Bytes_In'' =
     Some (Num (sum_where (\<lambda>r. Metric r \<in> set [''BytesInFromSource'', ''BytesInFromDestination'']) gw))"
  "nat_summary gw ''Total_Bytes_Out'' =
     Some (Num (sum_where (\<lambda>r. Metric r \<in> set [''BytesOutToSource'', ''BytesOutToDestination'']) gw))"
  "nat_summary gw ''Total_Packets_In'' =
     Some (Num (sum_where (\<lambda>r. Metric r \<in> set [''PacketsInFromSource'', ''PacketsInFromDestination'']) gw))"
  "nat_summary gw ''Total_Packets_Out'' =
     Some (Num (sum_where (\<lambda>r. Metric r \<in> set [''PacketsOutToSource'', ''PacketsOutToDestination'']) gw))"
  by (simp_all add: nat_summary_def)

lemma igw_summary_totals:
  "igw_summary gw ''Total_Bytes_In'' =
     Some (Num (sum_where (\<lambda>r. Metric r = ''BytesInFromDestination'') gw))"
  "igw_summary gw ''Total_Bytes_Out'' =
     Some (Num (sum_where (\<lambda>r. Metric r = ''BytesOutToDestination'') gw))"
  "igw_summary gw ''Total_Packets_In'' =
     Some (Num (sum_where (\<lambda>r. Metric r = ''PacketsInFromDestination'') gw))"
  "igw_summary gw ''Total_Packets_Out'' =
     Some (Num (sum_where (\<lambda>r. Metric r = ''PacketsOutToDestination'') gw))"
  by (simp_all add: igw_summary_def)

lemma igw_summary_drops:
  "igw_summary gw ''Total_Blackhole_Drops_Bytes'' =
     Some (Num (sum_where (\<lambda>r. Metric r = ''BytesDropCountBlackholeIPv4'') gw))"
  "igw_summary gw ''Total_NoRoute_Drops_Bytes'' =
     Some (Num (sum_where (\<lambda>r. Metric r = ''BytesDropCountNoRouteIPv4'') gw))"
  "igw_summary gw ''Total_Blackhole_Drops_Packets'' =
     Some (Num (sum_where (\<lambda>r. Metric r = ''PacketsDropCountBlackholeIPv4'') gw))"
  "igw_summary gw ''Total_NoRoute_Drops_Packets'' =
     Some (Num (sum_where (\<lambda>r. Metric r = ''PacketsDropCountNoRouteIPv4'') gw))"
  "igw_summary gw ''Status'' =
     Some (Str (if list_all (\<lambda>r. Sum r = 0) gw then ''Inactive'' else ''Active''))"
  by (simp_all add: igw_summary_def)

lemma kind_summary_other:
  "nat_summary gw ''Total_Periods'' = None"
  "nat_summary gw ''Idle_Periods'' = None"
  "nat_summary gw ''Idle_Percentage'' = None"
  "nat_summary gw ''Gateway_Type'' = None"
  "nat_summary gw ''Gateway_ID'' = None"
  "igw_summary gw ''Total_Periods'' = None"
  "igw_summary gw ''Idle_Periods'' = None"
  "igw_summary gw ''Idle_Percentage'' = None"
  "igw_summary gw ''Gateway_Type'' = None"
  "igw_summary gw ''Gateway_ID'' = None"
  by (simp_all add: nat_summary_def igw_summary_def)

lemma kind_summary_totals:
  "\<exists>b_in b_out p_in p_out.
     (if gt = ''NAT'' then nat_summary gw else igw_summary gw) ''Total_Bytes_In'' = Some (Num b_in) \<and>
     (if gt = ''NAT'' then nat_summary gw else igw_summary gw) ''Total_Bytes_Out'' = Some (Num b_out) \<and>
     (if gt = ''NAT'' then nat_summary gw else igw_summary gw) ''Total_Packets_In'' = Some (Num p_in) \<and>
     (if gt = ''NAT'' then nat_summary gw else igw_summary gw) ''Total_Packets_Out'' = Some (Num p_out)"
  by (simp add: nat_summary_totals igw_summary_totals)

lemma summary_body_eq:
  assumes kind: "kind = (if gt = ''NAT'' then nat_summary gw else igw_summary gw)"
    and totals: "kind ''Total_Bytes_In'' = Some (Num b_in)" "kind ''Total_Bytes_Out'' = Some (Num b_out)"
      "kind ''Total_Packets_In'' = Some (Num p_in)" "kind ''Total_Packets_Out'' = Some (Num p_out)"
  shows "summary_body a r gt traffic gid row0 gw =
     Inr (([''Account_ID'' \<mapsto> Str a,
            ''Region'' \<mapsto> Str r,
            ''VPC_ID'' \<mapsto> opt_cell (VPC_ID row0),
            ''VPC_Name'' \<mapsto> opt_cell (VPC_Name row0),
            ''Gateway_Type'' \<mapsto> Str gt,
            ''Gateway_ID'' \<mapsto> Str gid,
            ''Gateway_Name'' \<mapsto> Str (Gateway_Name row0),
            ''Total_Periods'' \<mapsto> Num (real (total_periods_of gw)),
            ''Idle_Periods'' \<mapsto> Num (real (idle_periods_of traffic gw)),
            ''Idle_Percentage'' \<mapsto>
               Num (round2 (if 0 < total_periods_of gw
                            then real (idle_periods_of traffic gw) / real (total_periods_of gw) * 100
                            else 0))]
           ++ kind)
          ++ [''Total_Bytes'' \<mapsto> Num (b_in + b_out),
              ''Total_Packets'' \<mapsto> Num (p_in + p_out),
              ''Bytes_Per_Second_Avg'' \<mapsto>
                 Num (round2 ((b_in + b_out) / real (max (total_periods_of gw * PERIOD_SECONDS) 1))),
              ''Packets_Per_Second_Avg'' \<mapsto>
                 Num (round2 ((p_in + p_out) / real (max (total_periods_of gw * PERIOD_SECONDS) 1)))])"
proof -
  let ?base = "[''Account_ID'' \<mapsto> Str a,
            ''Region'' \<mapsto> Str r,
            ''VPC_ID'' \<mapsto> opt_cell (VPC_ID row0),
            ''VPC_Name'' \<mapsto> opt_cell (VPC_Name row0),
            ''Gateway_Type'' \<mapsto> Str gt,
            ''Gateway_ID'' \<mapsto> Str gid,
            ''Gateway_Name'' \<mapsto> Str (Gateway_Name row0),
            ''Total_Periods'' \<mapsto> Num (real (total_periods_of gw)),
            ''Idle_Periods'' \<mapsto> Num (real (idle_periods_of traffic gw)),
            ''Idle_Percentage'' \<mapsto>
               Num (round2 (if 0 < total_periods_of gw
                            then real (idle_periods_of traffic gw) / real (total_periods_of gw) * 100
                            else 0))]"
  have look: "(?base ++ kind) ''Total_Bytes_In'' = Some (Num b_in)"
    "(?base ++ kind) ''Total_Bytes_Out'' = Some (Num b_out)"
    "(?base ++ kind) ''Total_Packets_In'' = Some (Num p_in)"
    "(?base ++ kind) ''Total_Packets_Out'' = Some (Num p_out)"
    using totals by (simp_all add: map_add_def)
  have rates: "rate_fields (?base ++ kind) (total_periods_of gw) =
     Inr [''Total_Bytes'' \<mapsto> Num (b_in + b_out),
          ''Total_Packets'' \<mapsto> Num (p_in + p_out),
          ''Bytes_Per_Second_Avg'' \<mapsto>
             Num (round2 ((b_in + b_out) / real (max (total_periods_of gw * PERIOD_SECONDS) 1))),
          ''Packets_Per_Second_Avg'' \<mapsto>
             Num (round2 ((p_in + p_out) / real (max (total_periods_of gw * PERIOD_SECONDS) 1)))]"
    by (rule rate_fields_eq [OF look])
  have "summary_body a r gt traffic gid row0 gw =
          bind_err (rate_fields (?base ++ kind) (total_periods_of gw))
            (\<lambda>rates. Inr ((?base ++ kind) ++ rates))"
    unfolding summary_body_def Let_def idle_pct_of_eq
    by (simp add: kind)
  then show ?thesis
    unfolding rates by simp
qed

lemma summary_body_total: "\<exists>s. summary_body a r gt traffic gid row0 gw = Inr s"
proof -
  obtain b_in b_out p_in p_out where
    "(if gt = ''NAT'' then nat_summary gw else igw_summary gw) ''Total_Bytes_In'' = Some (Num b_in)"
    "(if gt = ''NAT'' then nat_summary gw else igw_summary gw) ''Total_Bytes_Out'' = Some (Num b_out)"
    "(if gt = ''NAT'' then nat_summary gw else igw_summary gw) ''Total_Packets_In'' = Some (Num p_in)"
    "(if gt = ''NAT'' then nat_summary gw else igw_summary gw) ''Total_Packets_Out'' = Some (Num p_out)"
    using kind_summary_totals [of gt gw] by blast
  from summary_body_eq [OF refl this] show ?thesis by blast
qed

lemma summary_body_fields:
  assumes "summary_body a r gt traffic gid row0 gw = Inr s"
  shows "s ''Gateway_Type'' = Some (Str gt)"
    and "s ''Gateway_ID'' = Some (Str gid)"
    and "s ''Total_Periods'' = Some (Num (real (total_periods_of gw)))"
    and "s ''Idle_Periods'' = Some (Num (real (idle_periods_of traffic gw)))"
    and "s ''Idle_Percentage'' =
           Some (Num (round2 (if 0 < total_periods_of gw
                              then real (idle_periods_of traffic gw) / real (total_periods_of gw) * 100
                              else 0)))"
proof -
  let ?kind = "if gt = ''NAT'' then nat_summary gw else igw_summary gw"
  obtain b_in b_out p_in p_out where t:
    "?kind ''Total_Bytes_In'' = Some (Num b_in)" "?kind ''Total_Bytes_Out'' = Some (Num b_out)"
    "?kind ''Total_Packets_In'' = Some (Num p_in)" "?kind ''Total_Packets_Out'' = Some (Num p_out)"
    using kind_summary_totals [of gt gw] by blast
  have none: "?kind ''Total_Periods'' = None" "?kind ''Idle_Periods'' = None"
    "?kind ''Idle_Percentage'' = None" "?kind ''Gateway_Type'' = None"
    "?kind ''Gateway_ID'' = None"
    by (simp_all add: kind_summary_other)
  note s = summary_body_eq [OF refl t, of a r traffic gid row0, unfolded assms sum.inject]
  show "s ''Gateway_Type'' = Some (Str gt)"
    by (subst s) (simp add: map_add_def none)
  show "s ''Gateway_ID'' = Some (Str gid)"
    by (subst s) (simp add: map_add_def none)
  show "s ''Total_Periods'' = Some (Num (real (total_periods_of gw)))"
    by (subst s) (simp add: map_add_def none)
  show "s ''Idle_Periods'' = Some (Num (real (idle_periods_of traffic gw)))"
    by (subst s) (simp add: map_add_def none)
  show "s ''Idle_Percentage'' =
           Some (Num (round2 (if 0 < total_periods_of gw
                              then real (idle_periods_of traffic gw) / real (total_periods_of gw) * 100
                              else 0)))"
    by (subst s) (simp add: map_add_def none)
qed

lemma summary_body_totals:
  assumes "summary_body a r gt traffic gid row0 gw = Inr s"
  shows "\<exists>b_in b_out p_in p_out.
           s ''Total_Bytes_In'' = Some (Num b_in) \<and> s ''Total_Bytes_Out'' = Some (Num b_out) \<and>
           s ''Total_Packets_In'' = Some (Num p_in) \<and> s ''Total_Packets_Out'' = Some (Num p_out) \<and>
           (if gt = ''NAT'' then nat_summary gw else igw_summary gw) ''Total_Bytes_In'' = Some (Num b_in) \<and>
           (if gt = ''NAT'' then nat_summary gw else igw_summary gw) ''Total_Bytes_Out'' = Some (Num b_out) \<and>
           (if gt = ''NAT'' then nat_summary gw else igw_summary gw) ''Total_Packets_In'' = Some (Num p_in) \<and>
           (if gt = ''NAT'' then nat_summary gw else igw_summary gw) ''Total_Packets_Out'' = Some (Num p_out) \<and>
           s ''Total_Bytes'' = Some (Num (b_in + b_out)) \<and>
           s ''Total_Packets'' = Some (Num (p_in + p_out)) \<and>
           s ''Bytes_Per_Second_Avg'' =
             Some (Num (round2 ((b_in + b_out) / real (max (total_periods_of gw * PERIOD_SECONDS) 1)))) \<and>
           s ''Packets_Per_Second_Avg'' =
             Some (Num (round2 ((p_in + p_out) / real (max (total_periods_of gw * PERIOD_SECONDS) 1))))"
proof -
  let ?kind = "if gt = ''NAT'' then nat_summary gw else igw_summary gw"
  obtain b_in b_out p_in p_out where t:
    "?kind ''Total_Bytes_In'' = Some (Num b_in)" "?kind ''Total_Bytes_Out'' = Some (Num b_out)"
    "?kind ''Total_Packets_In'' = Some (Num p_in)" "?kind ''Total_Packets_Out'' = Some (Num p_out)"
    using kind_summary_totals [of gt gw] by blast
  note s = summary_body_eq [OF refl t, of a r traffic gid row0, unfolded assms sum.inject]
  have "s ''Total_Bytes_In'' = Some (Num b_in)" "s ''Total_Bytes_Out'' = Some (Num b_out)"
    "s ''Total_Packets_In'' = Some (Num p_in)" "s ''Total_Packets_Out'' = Some (Num p_out)"
    "s ''Total_Bytes'' = Some (Num (b_in + b_out))"
    "s ''Total_Packets'' = Some (Num (p_in + p_out))"
    "s ''Bytes_Per_Second_Avg'' =
       Some (Num (round2 ((b_in + b_out) / real (max (total_periods_of gw * PERIOD_SECONDS) 1))))"
    "s ''Packets_Per_Second_Avg'' =
       Some (Num (round2 ((p_in + p_out) / real (max (total_periods_of gw * PERIOD_SECONDS) 1))))"
    by (subst s, simp add: map_add_def t)+
  with t show ?thesis by blast
qed

lemma summary_body_igw_fields:
  assumes "summary_body a r gt traffic gid row0 gw = Inr s" and "gt \<noteq> ''NAT''"
  shows "s ''Status'' = igw_summary gw ''Status''"
    and "s ''Total_Blackhole_Drops_Bytes'' = igw_summary gw ''Total_Blackhole_Drops_Bytes''"
    and "s ''Total_NoRoute_Drops_Bytes'' = igw_summary gw ''Total_NoRoute_Drops_Bytes''"
    and "s ''Total_Blackhole_Drops_Packets'' = igw_summary gw ''Total_Blackhole_Drops_Packets''"
    and "s ''Total_NoRoute_Drops_Packets'' = igw_summary gw ''Total_NoRoute_Drops_Packets''"
proof -
  let ?kind = "if gt = ''NAT'' then nat_summary gw else igw_summary gw"
  obtain b_in b_out p_in p_out where t:
    "?kind ''Total_Bytes_In'' = Some (Num b_in)" "?kind ''Total_Bytes_Out'' = Some (Num b_out)"
    "?kind ''Total_Packets_In'' = Some (Num p_in)" "?kind ''Total_Packets_Out'' = Some (Num p_out)"
    using kind_summary_totals [of gt gw] by blast
  note s = summary_body_eq [OF refl t, of a r traffic gid row0, unfolded assms(1) sum.inject]
  show "s ''Status'' = igw_summary gw ''Status''"
    by (subst s) (simp add: map_add_def assms(2) igw_summary_drops)
  show "s ''Total_Blackhole_Drops_Bytes'' = igw_summary gw ''Total_Blackhole_Drops_Bytes''"
    by (subst s) (simp add: map_add_def assms(2) igw_summary_drops)
  show "s ''Total_NoRoute_Drops_Bytes'' = igw_summary gw ''Total_NoRoute_Drops_Bytes''"
    by (subst s) (simp add: map_add_def assms(2) igw_summary_drops)
  show "s ''Total_Blackhole_Drops_Packets'' = igw_summary gw ''Total_Blackhole_Drops_Packets''"
    by (subst s) (simp add: map_add_def assms(2) igw_summary_drops)
  show "s ''Total_NoRoute_Drops_Packets'' = igw_summary gw ''Total_NoRoute_Drops_Packets''"
    by (subst s) (simp add: map_add_def assms(2) igw_summary_drops)
qed

lemma gateway_summary_empty: "gateway_summary a r gt traffic gid [] = Inl IndexError"
  by (simp add: gateway_summary_def)

lemma gateway_summary_body:
  "gateway_summary a r gt traffic gid gw = Inr s \<Longrightarrow>
   gw \<noteq> [] \<and> summary_body a r gt traffic gid (hd gw) gw = Inr s"
  by (cases gw) (simp_all add: gateway_summary_def)

lemma gateway_summary_total: "gw \<noteq> [] \<Longrightarrow> \<exists>s. gateway_summary a r gt traffic gid gw = Inr s"
  using summary_body_total [of a r gt traffic gid "hd gw" gw]
  by (cases gw) (simp_all add: gateway_summary_def)

lemma analyze_kind_total:
  "\<exists>res. analyze_kind df a r (gt, ml) acc = Inr res"
proof -
  let ?ids = "unique (map Gateway_ID (filter (\<lambda>r. Gateway_Type r = gt) df))"
  let ?f = "\<lambda>gid. gateway_summary a r gt (traffic_metrics ml) gid (rows_of df gt gid)"
  have "\<forall>gid \<in> set ?ids. \<exists>s. ?f gid = Inr s"
  proof
    fix gid assume "gid \<in> set ?ids"
    then obtain row where "row \<in> set df" "Gateway_Type row = gt" "Gateway_ID row = gid"
      by auto
    then have "row \<in> set (rows_of df gt gid)" by (simp add: rows_of_def)
    then have "rows_of df gt gid \<noteq> []" by auto
    then show "\<exists>s. ?f gid = Inr s" by (rule gateway_summary_total)
  qed
  from for_each_err_total [of ?ids ?f acc, OF this] show ?thesis
    by (simp add: analyze_kind_def Let_def)
qed

lemma analyze_idle_time_total:
  "df \<noteq> [] \<Longrightarrow> \<exists>res. analyze_idle_time df a r = Inr res"
proof -
  assume ne: "df \<noteq> []"
  obtain r1 where r1: "analyze_kind df a r (''NAT'', NAT_METRICS) [] = Inr r1"
    using analyze_kind_total by blast
  obtain r2 where r2: "analyze_kind df a r (''IGW'', IGW_METRICS) r1 = Inr r2"
    using analyze_kind_total by blast
  from ne r1 r2 show ?thesis by (simp add: analyze_idle_time_def)
qed

lemma analyze_idle_time_empty: "analyze_idle_time [] a r = Inl KeyError"
  by (simp add: analyze_idle_time_def)

lemma traffic_metrics_NAT:
  "traffic_metrics NAT_METRICS =
     [''BytesInFromDestination'', ''BytesInFromSource'',
      ''BytesOutToDestination'', ''BytesOutToSource'',
      ''PacketsInFromDestination'', ''PacketsInFromSource'',
      ''PacketsOutToDestination'', ''PacketsOutToSource'']"
  by (simp add: traffic_metrics_def NAT_METRICS_def)

lemma traffic_metrics_IGW: "traffic_metrics IGW_METRICS = IGW_METRICS"
  by (simp add: traffic_metrics_def IGW_METRICS_def)

lemma round_half_even_cases:
  "round_half_even y = \<lfloor>y\<rfloor> \<or> (round_half_even y = \<lfloor>y\<rfloor> + 1 \<and> of_int \<lfloor>y\<rfloor> < y)"
  by (auto simp: round_half_even_def Let_def)

lemma round2_0: "round2 0 = 0"
  by (simp add: round2_def round_half_even_def)

lemma round2_bounds:
  assumes "0 \<le> x" and "x \<le> 100"
  shows "0 \<le> round2 x \<and> round2 x \<le> 100"
proof -
  let ?y = "x * 100"
  have y: "0 \<le> ?y" "?y \<le> 10000" using assms by simp_all
  have f0: "0 \<le> \<lfloor>?y\<rfloor>" using y(1) by simp
  have f1: "\<lfloor>?y\<rfloor> \<le> 10000" using y(2) by (simp add: floor_le_iff)
  have lo: "0 \<le> round_half_even ?y"
    using round_half_even_cases [of ?y] f0 by auto
  have hi: "round_half_even ?y \<le> 10000"
  proof (cases "round_half_even ?y = \<lfloor>?y\<rfloor>")
    case True
    with f1 show ?thesis by simp
  next
    case False
    with round_half_even_cases [of ?y]
    have r: "round_half_even ?y = \<lfloor>?y\<rfloor> + 1" and lt: "of_int \<lfloor>?y\<rfloor> < ?y" by auto
    from lt y(2) have "real_of_int \<lfloor>?y\<rfloor> < 10000" by linarith
    then have "\<lfloor>?y\<rfloor> < 10000" by linarith
    with r show ?thesis by simp
  qed
  from lo have "0 \<le> real_of_int (round_half_even ?y)" by simp
  moreover from hi have "real_of_int (round_half_even ?y) \<le> 10000" by linarith
  ultimately show ?thesis by (simp add: round2_def)
qed

lemma idle_pct_bounds:
  "0 \<le> (if 0 < total_periods_of gw
          then real (idle_periods_of traffic gw) / real (total_periods_of gw) * 100 else 0) \<and>
   (if 0 < total_periods_of gw
    then real (idle_periods_of traffic gw) / real (total_periods_of gw) * 100 else 0) \<le> 100"
proof (cases "0 < total_periods_of gw")
  case False
  then show ?thesis by simp
next
  case True
  have le: "real (idle_periods_of traffic gw) \<le> real (total_periods_of gw)"
    using idle_le_total [of traffic gw] by simp
  have pos: "0 < real (total_periods_of gw)" using True by simp
  from le pos have q: "real (idle_periods_of traffic gw) / real (total_periods_of gw) \<le> 1"
    by (simp add: divide_le_eq)
  have q0: "0 \<le> real (idle_periods_of traffic gw) / real (total_periods_of gw)"
    by simp
  from q have "real (idle_periods_of traffic gw) / real (total_periods_of gw) * 100 \<le> 1 * 100"
    by (rule mult_right_mono) simp
  moreover from q0 have "0 \<le> real (idle_periods_of traffic gw) / real (total_periods_of gw) * 100"
    by simp
  ultimately show ?thesis using True by (simp del: times_divide_eq_left)
qed

lemma analyze_idle_time_summary:
  assumes "analyze_idle_time df a r = Inr res" and "s \<in> set res"
  shows "\<exists>gt traffic gid gw. gw \<noteq> [] \<and> summary_body a r gt traffic gid (hd gw) gw = Inr s"
proof -
  from analyze_idle_time_origin [OF assms]
  obtain row gt ml where
    "row \<in> set df \<and> Gateway_Type row = gt \<and>
           (gt = ''NAT'' \<and> ml = NAT_METRICS \<or> gt = ''IGW'' \<and> ml = IGW_METRICS) \<and>
     gateway_summary a r gt (traffic_metrics ml) (Gateway_ID row) (rows_of df gt (Gateway_ID row)) = Inr s"
    by (elim exE)
  then have "gateway_summary a r gt (traffic_metrics ml) (Gateway_ID row)
      (rows_of df gt (Gateway_ID row)) = Inr s" by (elim conjE)
  from gateway_summary_body [OF this] show ?thesis by (intro exI)
qed

lemma analyze_idle_time_covers:
  assumes "analyze_idle_time df a r = Inr res" and "row \<in> set df"
    and "Gateway_Type row = ''NAT'' \<or> Gateway_Type row = ''IGW''"
  shows "\<exists>s \<in> set res. s ''Gateway_Type'' = Some (Str (Gateway_Type row)) \<and>
           s ''Gateway_ID'' = Some (Str (Gateway_ID row))"
proof -
  from assms(3) obtain ml where
    "Gateway_Type row = ''NAT'' \<and> ml = NAT_METRICS \<or> Gateway_Type row = ''IGW'' \<and> ml = IGW_METRICS"
    by auto
  from analyze_idle_time_cover [OF assms(1,2) this]
  obtain s where s: "s \<in> set res"
    and g: "gateway_summary a r (Gateway_Type row) (traffic_metrics ml) (Gateway_ID row)
              (rows_of df (Gateway_Type row) (Gateway_ID row)) = Inr s"
    by (elim bexE)
  from gateway_summary_body [OF g] have
    "summary_body a r (Gateway_Type row) (traffic_metrics ml) (Gateway_ID row)
       (hd (rows_of df (Gateway_Type row) (Gateway_ID row)))
       (rows_of df (Gateway_Type row) (Gateway_ID row)) = Inr s" by simp
  from summary_body_fields(1,2) [OF this] s show ?thesis by (intro bexI [of _ s] conjI)
qed

text \<open>
  C9. The analysis of every non-empty sample table succeeds; every gateway of kind NAT
  or IGW that appears in the table has a summary; and in every summary
  \<open>Idle_Periods \<le> Total_Periods\<close> and \<open>0 \<le> Idle_Percentage \<le> 100\<close>.
\<close>

theorem idle_periods_and_percentage_bounded:
  assumes "df \<noteq> []"
  shows "\<exists>res. analyze_idle_time df a r = Inr res \<and>
           (\<forall>row \<in> set df. Gateway_Type row = ''NAT'' \<or> Gateway_Type row = ''IGW'' \<longrightarrow>
              (\<exists>s \<in> set res. s ''Gateway_Type'' = Some (Str (Gateway_Type row)) \<and>
                 s ''Gateway_ID'' = Some (Str (Gateway_ID row)))) \<and>
           (\<forall>s \<in> set res. \<exists>t i p.
              s ''Total_Periods'' = Some (Num (real t)) \<and>
              s ''Idle_Periods'' = Some (Num (real i)) \<and>
              s ''Idle_Percentage'' = Some (Num p) \<and>
              i \<le> t \<and> 0 \<le> p \<and> p \<le> 100)"
proof -
  from analyze_idle_time_total [OF assms] obtain res
    where res: "analyze_idle_time df a r = Inr res" by blast
  have "\<exists>t i p. s ''Total_Periods'' = Some (Num (real t)) \<and>
              s ''Idle_Periods'' = Some (Num (real i)) \<and>
              s ''Idle_Percentage'' = Some (Num p) \<and>
              i \<le> t \<and> 0 \<le> p \<and> p \<le> 100" if "s \<in> set res" for s
  proof -
    from analyze_idle_time_summary [OF res that] obtain gt traffic gid gw
      where "gw \<noteq> [] \<and> summary_body a r gt traffic gid (hd gw) gw = Inr s" by (elim exE)
    then have b: "summary_body a r gt traffic gid (hd gw) gw = Inr s" ..
    let ?pct = "if 0 < total_periods_of gw
          then real (idle_periods_of traffic gw) / real (total_periods_of gw) * 100 else 0"
    have "0 \<le> round2 ?pct \<and> round2 ?pct \<le> 100"
      using idle_pct_bounds [of gw traffic] by (intro round2_bounds) simp_all
    then have "0 \<le> round2 ?pct" "round2 ?pct \<le> 100" by simp_all
    with summary_body_fields(3,4,5) [OF b] idle_le_total [of traffic gw]
    show ?thesis
      by (intro exI [of _ "total_periods_of gw"] exI [of _ "idle_periods_of traffic gw"]
          exI [of _ "round2 ?pct"] conjI)
  qed
  then have bnd: "\<forall>s \<in> set res. \<exists>t i p.
              s ''Total_Periods'' = Some (Num (real t)) \<and>
              s ''Idle_Periods'' = Some (Num (real i)) \<and>
              s ''Idle_Percentage'' = Some (Num p) \<and>
              i \<le> t \<and> 0 \<le> p \<and> p \<le> 100" ..
  have cov: "\<forall>row \<in> set df. Gateway_Type row = ''NAT'' \<or> Gateway_Type row = ''IGW'' \<longrightarrow>
              (\<exists>s \<in> set res. s ''Gateway_Type'' = Some (Str (Gateway_Type row)) \<and>
                 s ''Gateway_ID'' = Some (Str (Gateway_ID row)))"
    using analyze_idle_time_covers [OF res] by (intro ballI impI)
  from res cov bnd show ?thesis by (intro exI conjI)
qed

theorem idle_periods_and_percentage_bounded_witness:
  "mixed_traffic_table \<noteq> [] \<and>
   (\<exists>res. analyze_idle_time mixed_traffic_table ''123456789012'' ''us-east-1'' = Inr res \<and>
      (\<exists>s \<in> set res. s ''Gateway_ID'' = Some (Str ''nat-1'') \<and>
         (\<exists>t i p. s ''Total_Periods'' = Some (Num (real t)) \<and>
            s ''Idle_Periods'' = Some (Num (real i)) \<and>
            s ''Idle_Percentage'' = Some (Num p) \<and> i \<le> t \<and> 0 \<le> p \<and> p \<le> 100)))"
proof -
  have ne: "mixed_traffic_table \<noteq> []"
    by (simp add: mixed_traffic_table_def)
  have row: "table_row ''NAT'' ''nat-1'' ''BytesInFromSource'' 0 1000 \<in> set mixed_traffic_table"
    by (simp add: mixed_traffic_table_def)
  from idle_periods_and_percentage_bounded [OF ne, of "''123456789012''" "''us-east-1''"]
  obtain res where res: "analyze_idle_time mixed_traffic_table ''123456789012'' ''us-east-1'' = Inr res"
    and cov: "\<forall>row \<in> set mixed_traffic_table.
              Gateway_Type row = ''NAT'' \<or> Gateway_Type row = ''IGW'' \<longrightarrow>
              (\<exists>s \<in> set res. s ''Gateway_Type'' = Some (Str (Gateway_Type row)) \<and>
                 s ''Gateway_ID'' = Some (Str (Gateway_ID row)))"
    and bnd: "\<forall>s \<in> set res. \<exists>t i p.
              s ''Total_Periods'' = Some (Num (real t)) \<and>
              s ''Idle_Periods'' = Some (Num (real i)) \<and>
              s ''Idle_Percentage'' = Some (Num p) \<and>
              i \<le> t \<and> 0 \<le> p \<and> p \<le> 100"
    by (elim exE conjE)
  let ?r = "table_row ''NAT'' ''nat-1'' ''BytesInFromSource'' 0 1000"
  have ty: "Gateway_Type ?r = ''NAT'' \<or> Gateway_Type ?r = ''IGW''"
    by (simp add: table_row_def)
  from mp [OF bspec [OF cov row] ty] obtain s where s: "s \<in> set res"
    and id': "s ''Gateway_ID'' = Some (Str (Gateway_ID ?r))"
    by (elim bexE conjE)
  from id' have id: "s ''Gateway_ID'' = Some (Str ''nat-1'')"
    by (simp add: table_row_def)
  from bspec [OF bnd s] have b: "\<exists>t i p. s ''Total_Periods'' = Some (Num (real t)) \<and>
            s ''Idle_Periods'' = Some (Num (real i)) \<and>
            s ''Idle_Percentage'' = Some (Num p) \<and> i \<le> t \<and> 0 \<le> p \<and> p \<le> 100" .
  show ?thesis
    by (rule conjI [OF ne], rule exI [of _ res], rule conjI [OF res], rule bexI [OF _ s],
        rule conjI [OF id b])
qed

lemma idle_periods_of_card:
  "idle_periods_of traffic gw =
     card {t. \<exists>r \<in> set gw. Timestamp r = t \<and> Metric r \<in> set traffic \<and> Sum r = 0}"
proof -
  have "set (map Timestamp (filter (\<lambda>r. Metric r \<in> set traffic \<and> Sum r = 0) gw)) =
          {t. \<exists>r \<in> set gw. Timestamp r = t \<and> Metric r \<in> set traffic \<and> Sum r = 0}"
    by auto
  then show ?thesis by (simp add: idle_periods_of_def length_unique)
qed

text \<open>
  C1 (the code departs from the claim). At one timestamp a NAT gateway reports
  \<open>BytesInFromSource\<close> with sum 1000 and \<open>BytesOutToSource\<close> with sum 0. A traffic
  metric reports a non-zero sum at that timestamp, so the claim counts no idle period.
  The analysis reports 1000 bytes in, one period and one idle period: it counts the
  timestamps of the traffic rows whose sum is zero (\<open>idle_periods_of_card\<close>), not the
  timestamps at which all of them are zero.
\<close>

theorem idle_periods_counts_any_zero_row:
  "column ''Total_Bytes_In''
     (analyze_idle_time mixed_traffic_table ''123456789012'' ''us-east-1'') = Inr [Some (Num 1000)] \<and>
   column ''Total_Periods''
     (analyze_idle_time mixed_traffic_table ''123456789012'' ''us-east-1'') = Inr [Some (Num 1)] \<and>
   column ''Idle_Periods''
     (analyze_idle_time mixed_traffic_table ''123456789012'' ''us-east-1'') = Inr [Some (Num 1)]"
  by (simp add: column_def analyze_idle_time_def analyze_kind_def mixed_traffic_table_def
      table_row_def unique_def rows_of_def gateway_summary_def summary_body_def
      traffic_metrics_NAT traffic_metrics_IGW total_periods_of_def idle_periods_of_def
      idle_pct_of_def py_truediv_def rate_fields_def dict_get_def nat_summary_def map_add_def
      sum_where_def PERIOD_SECONDS_def Let_def)

lemma igw_status_cases:
  "igw_summary gw ''Status'' = Some (Str ''Inactive'') \<longleftrightarrow> (\<forall>row \<in> set gw. Sum row = 0)"
  "igw_summary gw ''Status'' = Some (Str ''Inactive'') \<or>
   igw_summary gw ''Status'' = Some (Str ''Active'')"
  by (simp_all add: igw_summary_drops list_all_iff)

text \<open>
  C4. Every Internet Gateway of the table has a summary, and the \<open>Status\<close> of the
  summary of an Internet Gateway is \<open>Inactive\<close> if and only if every row of that gateway
  in the table, whatever its metric, has \<open>Sum = 0\<close>; otherwise it is \<open>Active\<close>.
\<close>

theorem igw_status_inactive_iff_all_sums_zero:
  assumes "analyze_idle_time df a r = Inr res"
  shows "(\<forall>row \<in> set df. Gateway_Type row = ''IGW'' \<longrightarrow>
            (\<exists>s \<in> set res. s ''Gateway_Type'' = Some (Str ''IGW'') \<and>
               s ''Gateway_ID'' = Some (Str (Gateway_ID row)))) \<and>
         (\<forall>s \<in> set res. \<forall>gid.
            s ''Gateway_Type'' = Some (Str ''IGW'') \<and> s ''Gateway_ID'' = Some (Str gid) \<longrightarrow>
            (s ''Status'' = Some (Str ''Inactive'') \<longleftrightarrow>
               (\<forall>row \<in> set df. Gateway_Type row = ''IGW'' \<and> Gateway_ID row = gid \<longrightarrow> Sum row = 0)) \<and>
            (s ''Status'' = Some (Str ''Inactive'') \<or> s ''Status'' = Some (Str ''Active'')))"
proof (intro conjI ballI allI impI)
  fix row assume row: "row \<in> set df" and igw: "Gateway_Type row = ''IGW''"
  from igw have "Gateway_Type row = ''NAT'' \<or> Gateway_Type row = ''IGW''" by simp
  from analyze_idle_time_covers [OF assms row this] igw
  show "\<exists>s \<in> set res. s ''Gateway_Type'' = Some (Str ''IGW'') \<and>
          s ''Gateway_ID'' = Some (Str (Gateway_ID row))" by simp
next
  fix s gid
  assume s: "s \<in> set res"
    and sg: "s ''Gateway_Type'' = Some (Str ''IGW'') \<and> s ''Gateway_ID'' = Some (Str gid)"
  from analyze_idle_time_origin [OF assms s] obtain row gt ml where
    o: "row \<in> set df \<and> Gateway_Type row = gt \<and>
        (gt = ''NAT'' \<and> ml = NAT_METRICS \<or> gt = ''IGW'' \<and> ml = IGW_METRICS) \<and>
        gateway_summary a r gt (traffic_metrics ml) (Gateway_ID row)
          (rows_of df gt (Gateway_ID row)) = Inr s"
    by (elim exE)
  let ?gw = "rows_of df gt (Gateway_ID row)"
  from o have g: "gateway_summary a r gt (traffic_metrics ml) (Gateway_ID row) ?gw = Inr s"
    by (elim conjE)
  from gateway_summary_body [OF g]
  have b: "summary_body a r gt (traffic_metrics ml) (Gateway_ID row) (hd ?gw) ?gw = Inr s"
    by (elim conjE)
  from summary_body_fields(1,2) [OF b] sg have gt: "gt = ''IGW''" and gid: "Gateway_ID row = gid"
    by simp_all
  from gt have "gt \<noteq> ''NAT''" by simp
  from summary_body_igw_fields(1) [OF b this]
  have st: "s ''Status'' = igw_summary ?gw ''Status''" .
  have rows: "(\<forall>row \<in> set ?gw. Sum row = 0) \<longleftrightarrow>
      (\<forall>row \<in> set df. Gateway_Type row = ''IGW'' \<and> Gateway_ID row = gid \<longrightarrow> Sum row = 0)"
    by (simp add: rows_of_def gt gid Ball_def imp_conjL)
  show "s ''Status'' = Some (Str ''Inactive'') \<longleftrightarrow>
          (\<forall>row \<in> set df. Gateway_Type row = ''IGW'' \<and> Gateway_ID row = gid \<longrightarrow> Sum row = 0)"
    unfolding st igw_status_cases(1) by (rule rows)
  show "s ''Status'' = Some (Str ''Inactive'') \<or> s ''Status'' = Some (Str ''Active'')"
    unfolding st by (rule igw_status_cases(2))
qed

theorem igw_status_inactive_iff_all_sums_zero_witness:
  "\<exists>res. analyze_idle_time active_igw_table ''123456789012'' ''us-east-1'' = Inr res \<and>
     (\<exists>s \<in> set res. s ''Gateway_ID'' = Some (Str ''igw-1'') \<and>
        s ''Status'' = Some (Str ''Active''))"
proof -
  let ?r1 = "table_row ''IGW'' ''igw-1'' ''BytesInFromDestination'' 0 0"
  have "active_igw_table \<noteq> []" by (simp add: active_igw_table_def)
  from analyze_idle_time_total [OF this, of "''123456789012''" "''us-east-1''"] obtain res
    where res: "analyze_idle_time active_igw_table ''123456789012'' ''us-east-1'' = Inr res"
    by (elim exE)
  note main = igw_status_inactive_iff_all_sums_zero [OF res]
  have r1: "?r1 \<in> set active_igw_table"
    by (simp add: active_igw_table_def)
  have t1: "Gateway_Type ?r1 = ''IGW''" by (simp add: table_row_def)
  have g1: "Gateway_ID ?r1 = ''igw-1''" by (simp add: table_row_def)
  from mp [OF bspec [OF conjunct1 [OF main] r1] t1]
  have "\<exists>s \<in> set res. s ''Gateway_Type'' = Some (Str ''IGW'') \<and>
          s ''Gateway_ID'' = Some (Str ''igw-1'')"
    unfolding g1 .
  then obtain s where s: "s \<in> set res"
    and tyid: "s ''Gateway_Type'' = Some (Str ''IGW'') \<and> s ''Gateway_ID'' = Some (Str ''igw-1'')"
    by (elim bexE)
  note id = conjunct2 [OF tyid]
  from bspec [OF conjunct2 [OF main] s]
  have "s ''Gateway_Type'' = Some (Str ''IGW'') \<and> s ''Gateway_ID'' = Some (Str ''igw-1'') \<longrightarrow>
            (s ''Status'' = Some (Str ''Inactive'') \<longleftrightarrow>
               (\<forall>row \<in> set active_igw_table.
                  Gateway_Type row = ''IGW'' \<and> Gateway_ID row = ''igw-1'' \<longrightarrow> Sum row = 0)) \<and>
            (s ''Status'' = Some (Str ''Inactive'') \<or> s ''Status'' = Some (Str ''Active''))"
    by (rule spec)
  note c = mp [OF this tyid]
  have iff: "s ''Status'' = Some (Str ''Inactive'') \<longleftrightarrow>
               (\<forall>row \<in> set active_igw_table.
                  Gateway_Type row = ''IGW'' \<and> Gateway_ID row = ''igw-1'' \<longrightarrow> Sum row = 0)"
    and alt: "s ''Status'' = Some (Str ''Inactive'') \<or> s ''Status'' = Some (Str ''Active'')"
    by (rule conjunct1 [OF c], rule conjunct2 [OF c])
  have nz: "\<not> (\<forall>row \<in> set active_igw_table.
                  Gateway_Type row = ''IGW'' \<and> Gateway_ID row = ''igw-1'' \<longrightarrow> Sum row = 0)"
    by (simp add: active_igw_table_def table_row_def)
  from iff nz have "s ''Status'' \<noteq> Some (Str ''Inactive'')" by simp
  with alt have st: "s ''Status'' = Some (Str ''Active'')" by simp
  show ?thesis
    by (rule exI [of _ res], rule conjI [OF res], rule bexI [OF _ s], rule conjI [OF id st])
qed



lemma total_periods_zero: "total_periods_of gw = 0 \<Longrightarrow> gw = []"
  using total_periods_pos [of gw] by auto

lemma summary_body_no_rows:
  "\<exists>s. summary_body a r gt traffic gid row0 [] = Inr s \<and>
     s ''Total_Periods'' = Some (Num 0) \<and> s ''Idle_Percentage'' = Some (Num 0) \<and>
     s ''Bytes_Per_Second_Avg'' = Some (Num 0) \<and> s ''Packets_Per_Second_Avg'' = Some (Num 0)"
proof -
  obtain s where b: "summary_body a r gt traffic gid row0 [] = Inr s"
    using summary_body_total [of a r gt traffic gid row0 "[]"] by (elim exE)
  have z: "total_periods_of [] = 0" by (simp add: total_periods_of_def unique_def)
  from summary_body_totals [OF b] obtain b_in b_out p_in p_out where
    k: "(if gt = ''NAT'' then nat_summary [] else igw_summary []) ''Total_Bytes_In'' = Some (Num b_in)"
      "(if gt = ''NAT'' then nat_summary [] else igw_summary []) ''Total_Bytes_Out'' = Some (Num b_out)"
      "(if gt = ''NAT'' then nat_summary [] else igw_summary []) ''Total_Packets_In'' = Some (Num p_in)"
      "(if gt = ''NAT'' then nat_summary [] else igw_summary []) ''Total_Packets_Out'' = Some (Num p_out)"
    and rates: "s ''Bytes_Per_Second_Avg'' =
         Some (Num (round2 ((b_in + b_out) / real (max (total_periods_of [] * PERIOD_SECONDS) 1))))"
      "s ''Packets_Per_Second_Avg'' =
         Some (Num (round2 ((p_in + p_out) / real (max (total_periods_of [] * PERIOD_SECONDS) 1))))"
    by (elim exE conjE)
  from k have "b_in = 0" "b_out = 0" "p_in = 0" "p_out = 0"
    by (simp_all add: nat_summary_totals igw_summary_totals sum_where_def split: if_splits)
  with rates have r: "s ''Bytes_Per_Second_Avg'' = Some (Num 0)"
    "s ''Packets_Per_Second_Avg'' = Some (Num 0)"
    by (simp_all add: round2_0)
  from summary_body_fields(3,5) [OF b] z have
    p: "s ''Total_Periods'' = Some (Num 0)" "s ''Idle_Percentage'' = Some (Num 0)"
    by (simp_all add: round2_0)
  from b p r show ?thesis by (intro exI [of _ s] conjI)
qed

text \<open>
  C7. On rows that give \<open>Total_Periods = 0\<close> the summary computation of lines 284 to 320
  succeeds with \<open>Idle_Percentage = 0\<close> and both per-second rates \<open>0\<close>; and for no
  input does that computation, the whole loop body or the whole analysis end in a
  division by zero.
\<close>

theorem zero_periods_no_division_by_zero:
  "(total_periods_of gw = 0 \<longrightarrow>
      (\<exists>s. summary_body a r gt traffic gid row0 gw = Inr s \<and>
         s ''Total_Periods'' = Some (Num 0) \<and> s ''Idle_Percentage'' = Some (Num 0) \<and>
         s ''Bytes_Per_Second_Avg'' = Some (Num 0) \<and>
         s ''Packets_Per_Second_Avg'' = Some (Num 0))) \<and>
   summary_body a r gt traffic gid row0 gw \<noteq> Inl ZeroDivisionError \<and>
   gateway_summary a r gt traffic gid gw \<noteq> Inl ZeroDivisionError \<and>
   analyze_idle_time df a r \<noteq> Inl ZeroDivisionError"
proof (intro conjI impI)
  assume "total_periods_of gw = 0"
  then have "gw = []" by (rule total_periods_zero)
  then show "\<exists>s. summary_body a r gt traffic gid row0 gw = Inr s \<and>
         s ''Total_Periods'' = Some (Num 0) \<and> s ''Idle_Percentage'' = Some (Num 0) \<and>
         s ''Bytes_Per_Second_Avg'' = Some (Num 0) \<and>
         s ''Packets_Per_Second_Avg'' = Some (Num 0)"
    using summary_body_no_rows [of a r gt traffic gid row0] by simp
next
  show "summary_body a r gt traffic gid row0 gw \<noteq> Inl ZeroDivisionError"
    using summary_body_total [of a r gt traffic gid row0 gw] by auto
next
  show "gateway_summary a r gt traffic gid gw \<noteq> Inl ZeroDivisionError"
    using gateway_summary_total [of gw a r gt traffic gid]
    by (cases "gw = []") (auto simp: gateway_summary_empty)
next
  show "analyze_idle_time df a r \<noteq> Inl ZeroDivisionError"
    using analyze_idle_time_total [of df a r]
    by (cases "df = []") (auto simp: analyze_idle_time_empty)
qed

theorem zero_periods_no_division_by_zero_witness:
  "total_periods_of [] = 0 \<and>
   (\<exists>s. summary_body ''123456789012'' ''us-east-1'' ''NAT'' (traffic_metrics NAT_METRICS) ''nat-1''
           (table_row ''NAT'' ''nat-1'' ''BytesInFromSource'' 0 0) [] = Inr s \<and>
         s ''Total_Periods'' = Some (Num 0) \<and> s ''Idle_Percentage'' = Some (Num 0) \<and>
         s ''Bytes_Per_Second_Avg'' = Some (Num 0) \<and>
         s ''Packets_Per_Second_Avg'' = Some (Num 0))"
proof -
  have z: "total_periods_of [] = 0" by (simp add: total_periods_of_def unique_def)
  from mp [OF conjunct1 [OF zero_periods_no_division_by_zero] z] z
  show ?thesis by (rule conjI [rotated])
qed

section \<open>Properties of the collector\<close>

lemma bind_io_Inl [simp]: "bind_io (c, Inl e) f = (c, Inl e)"
  by (simp add: bind_io_def)

lemma bind_io_Inr [simp]: "bind_io (c, Inr x) f = (c @ fst (f x), snd (f x))"
  by (simp add: bind_io_def split: prod.splits)

lemma bind_io_return [simp]: "bind_io (return_io x) f = f x"
  by (simp add: return_io_def)

lemma bind_io_eq_Inr:
  "bind_io m f = (c, Inr y) \<longleftrightarrow>
     (\<exists>c1 x c2. m = (c1, Inr x) \<and> f x = (c2, Inr y) \<and> c = c1 @ c2)"
proof (cases m)
  case (Pair c1 r)
  then show ?thesis
    by (cases r; cases "f (projr r)") auto
qed


lemma for_each_invariant:
  assumes "for_each body xs results = (c, Inr res)"
    and "I results"
    and "\<forall>x \<in> set xs. \<forall>rs c' rs'. I rs \<longrightarrow> body x rs = (c', Inr rs') \<longrightarrow> I rs'"
  shows "I res"
  using assms
proof (induction xs arbitrary: results c)
  case Nil
  then show ?case by (simp add: return_io_def)
next
  case (Cons x xs)
  from Cons.prems(1) have "bind_io (body x results) (for_each body xs) = (c, Inr res)"
    by simp
  then obtain c1 rs c2 where b: "body x results = (c1, Inr rs)"
    and rest: "for_each body xs rs = (c2, Inr res)"
    unfolding bind_io_eq_Inr by (elim exE conjE)
  have "x \<in> set (x # xs)" by simp
  from bspec [OF Cons.prems(3) this]
  have "I results \<longrightarrow> body x results = (c1, Inr rs) \<longrightarrow> I rs" by (elim allE)
  with Cons.prems(2) b have "I rs" by (elim impE)
  moreover have "\<forall>x \<in> set xs. \<forall>rs c' rs'. I rs \<longrightarrow> body x rs = (c', Inr rs') \<longrightarrow> I rs'"
  proof
    fix y assume "y \<in> set xs"
    then have "y \<in> set (x # xs)" by simp
    from bspec [OF Cons.prems(3) this]
    show "\<forall>rs c' rs'. I rs \<longrightarrow> body y rs = (c', Inr rs') \<longrightarrow> I rs'" .
  qed
  ultimately show ?case by (rule Cons.IH [OF rest])
qed

lemma for_each_establish:
  assumes "for_each body xs results = (c, Inr res)"
    and "x \<in> set xs"
    and "\<forall>rs c' rs'. body x rs = (c', Inr rs') \<longrightarrow> Q rs'"
    and "\<forall>y \<in> set xs. \<forall>rs c' rs'. Q rs \<longrightarrow> body y rs = (c', Inr rs') \<longrightarrow> Q rs'"
  shows "Q res"
  using assms
proof (induction xs arbitrary: results c)
  case Nil
  then show ?case by simp
next
  case (Cons y ys)
  from Cons.prems(1) have "bind_io (body y results) (for_each body ys) = (c, Inr res)"
    by simp
  then obtain c1 rs c2 where b: "body y results = (c1, Inr rs)"
    and rest: "for_each body ys rs = (c2, Inr res)"
    unfolding bind_io_eq_Inr by (elim exE conjE)
  have pres: "\<forall>y \<in> set ys. \<forall>rs c' rs'. Q rs \<longrightarrow> body y rs = (c', Inr rs') \<longrightarrow> Q rs'"
  proof
    fix z assume "z \<in> set ys"
    then have "z \<in> set (y # ys)" by simp
    from bspec [OF Cons.prems(4) this]
    show "\<forall>rs c' rs'. Q rs \<longrightarrow> body z rs = (c', Inr rs') \<longrightarrow> Q rs'" .
  qed
  show ?case
  proof (cases "x = y")
    case True
    from Cons.prems(3) have "body x results = (c1, Inr rs) \<longrightarrow> Q rs" by (elim allE)
    with b True have "Q rs" by simp
    then show ?thesis by (rule for_each_invariant [OF rest _ pres])
  next
    case False
    with Cons.prems(2) have "x \<in> set ys" by simp
    then show ?thesis by (rule Cons.IH [OF rest _ Cons.prems(3) pres])
  qed
qed





lemma nat_metric_step_rows:
  assumes "nat_metric_step cw a r start_time end_time natgw metric results = (c, Inr rs)"
  shows "\<exists>dps. get_metric_data_chunked cw ''AWS/NATGateway'' metric
            [(''NatGatewayId'', gw_id natgw)] start_time end_time = (c, Inr dps) \<and>
          rs = results @ map (sample_row a r ''NAT'' natgw metric) dps"
  using assms unfolding nat_metric_step_def
  by (auto simp: bind_io_eq_Inr return_io_def)

lemma igw_datapoints_no_metric:
  assumes "list_metrics cw ''AWS/IGW'' metric [(''InternetGatewayId'', igw_id)] = Inr []"
  shows "igw_datapoints cw igw_id metric start_time end_time =
           ([ListMetrics ''AWS/IGW'' metric [(''InternetGatewayId'', igw_id)]], Inr [])"
  by (simp add: igw_datapoints_def assms return_io_def)

lemma igw_metric_step_rows:
  assumes "igw_metric_step cw a r start_time end_time igw metric results = (c, Inr rs)"
  shows "\<exists>dps. igw_datapoints cw (gw_id igw) metric start_time end_time = (c, Inr dps) \<and>
          rs = results @ (if dps = [] then [placeholder_row a r igw metric start_time] else [])
                 @ map (sample_row a r ''IGW'' igw metric) dps"
  using assms unfolding igw_metric_step_def
  by (auto simp: bind_io_eq_Inr return_io_def Let_def split: if_splits)

lemma igw_metric_step_no_data:
  assumes "igw_datapoints cw (gw_id igw) metric start_time end_time = (c, Inr [])"
  shows "igw_metric_step cw a r start_time end_time igw metric results =
           (c, Inr (results @ [placeholder_row a r igw metric start_time]))"
  by (simp add: igw_metric_step_def assms return_io_def)

lemma sample_row_fields [simp]:
  "Gateway_Type (sample_row a r gt g m dp) = gt"
  "Gateway_ID (sample_row a r gt g m dp) = gw_id g"
  "Metric (sample_row a r gt g m dp) = m"
  "Timestamp (sample_row a r gt g m dp) = dp_Timestamp dp"
  by (simp_all add: sample_row_def)

lemma placeholder_row_fields [simp]:
  "Gateway_Type (placeholder_row a r g m st) = ''IGW''"
  "Gateway_ID (placeholder_row a r g m st) = gw_id g"
  "Metric (placeholder_row a r g m st) = m"
  "Timestamp (placeholder_row a r g m st) = st"
  "Sum (placeholder_row a r g m st) = 0"
  "Average (placeholder_row a r g m st) = 0"
  "Maximum (placeholder_row a r g m st) = 0"
  "Minimum (placeholder_row a r g m st) = 0"
  by (simp_all add: placeholder_row_def)

text \<open>What one step of the NAT loop and of the IGW loop adds to the table.\<close>

lemma nat_metric_step_new:
  assumes "nat_metric_step cw a r st en natgw metric results = (c, Inr rs)"
  shows "set results \<subseteq> set rs"
    and "\<forall>row \<in> set rs. row \<in> set results \<or> Gateway_Type row = ''NAT''"
proof -
  from nat_metric_step_rows [OF assms] obtain dps
    where rs: "rs = results @ map (sample_row a r ''NAT'' natgw metric) dps"
    by (elim exE conjE)
  show "set results \<subseteq> set rs" unfolding rs by simp
  show "\<forall>row \<in> set rs. row \<in> set results \<or> Gateway_Type row = ''NAT''"
    unfolding rs by auto
qed

lemma igw_metric_step_new:
  assumes "igw_metric_step cw a r st en igw metric results = (c, Inr rs)"
  shows "set results \<subseteq> set rs"
    and "\<forall>row \<in> set rs. row \<in> set results \<or> igw_row_of cw st en (gw_id igw) metric row"
    and "\<exists>row \<in> set rs. igw_row_of cw st en (gw_id igw) metric row"
proof -
  from igw_metric_step_rows [OF assms] obtain dps
    where d: "igw_datapoints cw (gw_id igw) metric st en = (c, Inr dps)"
      and rs: "rs = results @ (if dps = [] then [placeholder_row a r igw metric st] else [])
                 @ map (sample_row a r ''IGW'' igw metric) dps"
    by (elim exE conjE)
  show "set results \<subseteq> set rs" unfolding rs by simp
  show "\<forall>row \<in> set rs. row \<in> set results \<or> igw_row_of cw st en (gw_id igw) metric row"
  proof
    fix row assume "row \<in> set rs"
    then consider "row \<in> set results"
      | "dps = []" "row = placeholder_row a r igw metric st"
      | dp where "dps \<noteq> []" "dp \<in> set dps" "row = sample_row a r ''IGW'' igw metric dp"
      unfolding rs by (cases "dps = []") auto
    then show "row \<in> set results \<or> igw_row_of cw st en (gw_id igw) metric row"
    proof cases
      case 1
      then show ?thesis by simp
    next
      case 2
      with d show ?thesis by (simp add: igw_row_of_def)
    next
      case 3
      with d have "igw_row_of cw st en (gw_id igw) metric row"
        unfolding igw_row_of_def by (simp, intro bexI [of _ dp]) simp_all
      then show ?thesis by simp
    qed
  qed
  show "\<exists>row \<in> set rs. igw_row_of cw st en (gw_id igw) metric row"
  proof (cases "dps = []")
    case True
    with d have "igw_row_of cw st en (gw_id igw) metric (placeholder_row a r igw metric st)"
      by (simp add: igw_row_of_def)
    moreover from True have "placeholder_row a r igw metric st \<in> set rs"
      unfolding rs by simp
    ultimately show ?thesis by (rule rev_bexI [rotated])
  next
    case False
    then obtain dp where dp: "dp \<in> set dps" by (cases dps) auto
    with d False have "igw_row_of cw st en (gw_id igw) metric (sample_row a r ''IGW'' igw metric dp)"
      unfolding igw_row_of_def by (simp, intro bexI [of _ dp]) simp_all
    moreover from dp have "sample_row a r ''IGW'' igw metric dp \<in> set rs"
      unfolding rs by simp
    ultimately show ?thesis by (rule rev_bexI [rotated])
  qed
qed

lemma for_each_nested_invariant:
  assumes loops: "for_each (\<lambda>x. for_each (step x) ys) xs rs0 = (c, Inr rs)"
    and init: "I rs0"
    and pres: "\<forall>x \<in> set xs. \<forall>y \<in> set ys. \<forall>rs c' rs'.
                 I rs \<longrightarrow> step x y rs = (c', Inr rs') \<longrightarrow> I rs'"
  shows "I rs"
proof -
  have "\<forall>x \<in> set xs. \<forall>rs c' rs'.
          I rs \<longrightarrow> for_each (step x) ys rs = (c', Inr rs') \<longrightarrow> I rs'"
  proof (intro ballI allI impI)
    fix x rs c' rs'
    assume x: "x \<in> set xs" and i: "I rs" and inner: "for_each (step x) ys rs = (c', Inr rs')"
    from bspec [OF pres x]
    have "\<forall>y \<in> set ys. \<forall>rs c' rs'. I rs \<longrightarrow> step x y rs = (c', Inr rs') \<longrightarrow> I rs'" .
    from for_each_invariant [where I = I, OF inner i this] show "I rs'" .
  qed
  from for_each_invariant [where I = I, OF loops init this] show ?thesis .
qed

lemma for_each_nested_establish:
  assumes loops: "for_each (\<lambda>x. for_each (step x) ys) xs rs0 = (c, Inr rs)"
    and x: "x \<in> set xs" and y: "y \<in> set ys"
    and est: "\<forall>rs c' rs'. step x y rs = (c', Inr rs') \<longrightarrow> Q rs'"
    and pres: "\<forall>x \<in> set xs. \<forall>y \<in> set ys. \<forall>rs c' rs'.
                 Q rs \<longrightarrow> step x y rs = (c', Inr rs') \<longrightarrow> Q rs'"
  shows "Q rs"
proof -
  have e: "\<forall>rs c' rs'. for_each (step x) ys rs = (c', Inr rs') \<longrightarrow> Q rs'"
  proof (intro allI impI)
    fix rs c' rs'
    assume inner: "for_each (step x) ys rs = (c', Inr rs')"
    from bspec [OF pres x]
    have "\<forall>y \<in> set ys. \<forall>rs c' rs'. Q rs \<longrightarrow> step x y rs = (c', Inr rs') \<longrightarrow> Q rs'" .
    from for_each_establish [where Q = Q, OF inner y est this] show "Q rs'" .
  qed
  have p: "\<forall>z \<in> set xs. \<forall>rs c' rs'.
          Q rs \<longrightarrow> for_each (step z) ys rs = (c', Inr rs') \<longrightarrow> Q rs'"
  proof (intro ballI allI impI)
    fix z rs c' rs'
    assume z: "z \<in> set xs" and q: "Q rs" and inner: "for_each (step z) ys rs = (c', Inr rs')"
    from bspec [OF pres z]
    have "\<forall>y \<in> set ys. \<forall>rs c' rs'. Q rs \<longrightarrow> step z y rs = (c', Inr rs') \<longrightarrow> Q rs'" .
    from for_each_invariant [where I = Q, OF inner q this] show "Q rs'" .
  qed
  from for_each_establish [where Q = Q, OF loops x e p] show ?thesis .
qed

lemma nat_loops_rows:
  assumes "for_each (\<lambda>natgw. for_each (nat_metric_step cw a r st en natgw) NAT_METRICS)
             nats rs0 = (c, Inr rs)"
  shows "set rs0 \<subseteq> set rs \<and> (\<forall>row \<in> set rs. row \<in> set rs0 \<or> Gateway_Type row = ''NAT'')"
proof -
  let ?I = "\<lambda>rs. set rs0 \<subseteq> set rs \<and>
              (\<forall>row \<in> set rs. row \<in> set rs0 \<or> Gateway_Type row = ''NAT'')"
  have init: "?I rs0" by simp
  have pres: "\<forall>x \<in> set nats. \<forall>y \<in> set NAT_METRICS. \<forall>rs c' rs'.
          ?I rs \<longrightarrow> nat_metric_step cw a r st en x y rs = (c', Inr rs') \<longrightarrow> ?I rs'"
  proof (intro ballI allI impI)
    fix x y rs c' rs'
    assume i: "?I rs"
      and s: "nat_metric_step cw a r st en x y rs = (c', Inr rs')"
    from nat_metric_step_new [OF s] i
    show "?I rs'" by blast
  qed
  from for_each_nested_invariant [where I = ?I, OF assms init pres] show ?thesis .
qed

lemma igw_loops_rows:
  assumes "for_each (\<lambda>igw. for_each (igw_metric_step cw a r st en igw) IGW_METRICS)
             igws rs0 = (c, Inr rs)"
  shows "set rs0 \<subseteq> set rs \<and>
         (\<forall>row \<in> set rs. row \<in> set rs0 \<or>
            (\<exists>igw \<in> set igws. \<exists>m \<in> set IGW_METRICS. igw_row_of cw st en (gw_id igw) m row))"
proof -
  let ?I = "\<lambda>rs. set rs0 \<subseteq> set rs \<and>
         (\<forall>row \<in> set rs. row \<in> set rs0 \<or>
            (\<exists>igw \<in> set igws. \<exists>m \<in> set IGW_METRICS. igw_row_of cw st en (gw_id igw) m row))"
  have init: "?I rs0" by simp
  have pres: "\<forall>x \<in> set igws. \<forall>y \<in> set IGW_METRICS. \<forall>rs c' rs'.
          ?I rs \<longrightarrow> igw_metric_step cw a r st en x y rs = (c', Inr rs') \<longrightarrow> ?I rs'"
  proof (intro ballI allI impI)
    fix x y rs c' rs'
    assume x: "x \<in> set igws" and y: "y \<in> set IGW_METRICS" and i: "?I rs"
      and s: "igw_metric_step cw a r st en x y rs = (c', Inr rs')"
    from igw_metric_step_new(1,2) [OF s] i x y
    show "?I rs'" by blast
  qed
  from for_each_nested_invariant [where I = ?I, OF assms init pres] show ?thesis .
qed

lemma igw_loops_represented:
  assumes loops: "for_each (\<lambda>igw. for_each (igw_metric_step cw a r st en igw) IGW_METRICS)
             igws rs0 = (c, Inr rs)"
    and g: "g \<in> set igws" and m: "m \<in> set IGW_METRICS"
  shows "\<exists>row \<in> set rs. igw_row_of cw st en (gw_id g) m row"
proof -
  let ?Q = "\<lambda>rs. \<exists>row \<in> set rs. igw_row_of cw st en (gw_id g) m row"
  have est: "\<forall>rs c' rs'. igw_metric_step cw a r st en g m rs = (c', Inr rs') \<longrightarrow> ?Q rs'"
  proof (intro allI impI)
    fix rs c' rs'
    assume "igw_metric_step cw a r st en g m rs = (c', Inr rs')"
    then show "?Q rs'" by (rule igw_metric_step_new(3))
  qed
  have pres: "\<forall>x \<in> set igws. \<forall>y \<in> set IGW_METRICS. \<forall>rs c' rs'.
          ?Q rs \<longrightarrow> igw_metric_step cw a r st en x y rs = (c', Inr rs') \<longrightarrow> ?Q rs'"
  proof (intro ballI allI impI)
    fix x y rs c' rs'
    assume q: "?Q rs" and s: "igw_metric_step cw a r st en x y rs = (c', Inr rs')"
    from igw_metric_step_new(1) [OF s] q show "?Q rs'" by blast
  qed
  from for_each_nested_establish [where Q = ?Q, OF loops g m est pres] show ?thesis .
qed

lemma igw_loops_placeholder:
  assumes loops: "for_each (\<lambda>igw. for_each (igw_metric_step cw a r st en igw) IGW_METRICS)
             igws rs0 = (c, Inr rs)"
    and g: "g \<in> set igws" and m: "m \<in> set IGW_METRICS"
    and nodata: "snd (igw_datapoints cw (gw_id g) m st en) = Inr []"
  shows "placeholder_row a r g m st \<in> set rs"
proof -
  let ?Q = "\<lambda>rs. placeholder_row a r g m st \<in> set rs"
  have est: "\<forall>rs c' rs'. igw_metric_step cw a r st en g m rs = (c', Inr rs') \<longrightarrow> ?Q rs'"
  proof (intro allI impI)
    fix rs c' rs'
    assume "igw_metric_step cw a r st en g m rs = (c', Inr rs')"
    from igw_metric_step_rows [OF this] obtain dps
      where d: "igw_datapoints cw (gw_id g) m st en = (c', Inr dps)"
        and rs: "rs' = rs @ (if dps = [] then [placeholder_row a r g m st] else [])
                 @ map (sample_row a r ''IGW'' g m) dps"
      by (elim exE conjE)
    from d nodata have "dps = []" by simp
    with rs show "?Q rs'" by simp
  qed
  have pres: "\<forall>x \<in> set igws. \<forall>y \<in> set IGW_METRICS. \<forall>rs c' rs'.
          ?Q rs \<longrightarrow> igw_metric_step cw a r st en x y rs = (c', Inr rs') \<longrightarrow> ?Q rs'"
  proof (intro ballI allI impI)
    fix x y rs c' rs'
    assume q: "?Q rs" and s: "igw_metric_step cw a r st en x y rs = (c', Inr rs')"
    from igw_metric_step_new(1) [OF s] q show "?Q rs'" by blast
  qed
  from for_each_nested_establish [where Q = ?Q, OF loops g m est pres] show ?thesis .
qed

lemma collect_metrics_loops:
  assumes "collect_metrics cw region account days now nats igws = (calls, Inr df)"
  shows "\<exists>c1 r1 c2.
           for_each (\<lambda>natgw. for_each
               (nat_metric_step cw account region (now - timedelta_days days) now natgw)
               NAT_METRICS) nats [] = (c1, Inr r1) \<and>
           for_each (\<lambda>igw. for_each
               (igw_metric_step cw account region (now - timedelta_days days) now igw)
               IGW_METRICS) igws r1 = (c2, Inr df)"
  using assms unfolding collect_metrics_def Let_def bind_io_eq_Inr
  by (elim exE conjE, intro exI conjI)







lemma nat_metric_step_quiet:
  "snd (nat_metric_step quiet_cloudwatch a r st en natgw metric results) = Inr results"
  by (simp add: nat_metric_step_def get_metric_data_chunked_def chunk_loop_quiet return_io_def)

lemma for_each_unchanged:
  assumes "\<forall>x \<in> set xs. \<forall>rs. snd (body x rs) = Inr rs"
  shows "snd (for_each body xs results) = Inr results"
  using assms
proof (induction xs arbitrary: results)
  case Nil
  then show ?case by (simp add: return_io_def)
next
  case (Cons x xs)
  have "x \<in> set (x # xs)" by simp
  from bspec [OF Cons.prems this] have "snd (body x results) = Inr results" by (rule spec)
  then obtain c1 where b: "body x results = (c1, Inr results)"
    by (cases "body x results") simp
  have "\<forall>x \<in> set xs. \<forall>rs. snd (body x rs) = Inr rs"
  proof
    fix y assume "y \<in> set xs"
    then have "y \<in> set (x # xs)" by simp
    from bspec [OF Cons.prems this] show "\<forall>rs. snd (body y rs) = Inr rs" .
  qed
  from Cons.IH [OF this] have "snd (for_each body xs results) = Inr results" .
  with b show ?case by simp
qed

lemma nat_loops_quiet:
  "snd (for_each (\<lambda>natgw. for_each (nat_metric_step quiet_cloudwatch a r st en natgw) NAT_METRICS)
          nats results) = Inr results"
proof (rule for_each_unchanged, rule ballI, rule allI)
  fix x rs
  have "\<forall>m \<in> set NAT_METRICS. \<forall>rs.
          snd (nat_metric_step quiet_cloudwatch a r st en x m rs) = Inr rs"
    by (rule ballI, rule allI, rule nat_metric_step_quiet)
  then show "snd (for_each (nat_metric_step quiet_cloudwatch a r st en x) NAT_METRICS rs) = Inr rs"
    by (rule for_each_unchanged)
qed

lemma for_each_returns:
  assumes "\<forall>x \<in> set xs. \<forall>rs. \<exists>c rs'. body x rs = (c, Inr rs')"
  shows "\<exists>c rs'. for_each body xs results = (c, Inr rs')"
  using assms
proof (induction xs arbitrary: results)
  case Nil
  then show ?case by (simp add: return_io_def)
next
  case (Cons x xs)
  have "x \<in> set (x # xs)" by simp
  from bspec [OF Cons.prems this] have "\<exists>c rs'. body x results = (c, Inr rs')" by (rule spec)
  then obtain c1 rs1 where b: "body x results = (c1, Inr rs1)" by (elim exE)
  have "\<forall>x \<in> set xs. \<forall>rs. \<exists>c rs'. body x rs = (c, Inr rs')"
  proof
    fix y assume "y \<in> set xs"
    then have "y \<in> set (x # xs)" by simp
    from bspec [OF Cons.prems this] show "\<forall>rs. \<exists>c rs'. body y rs = (c, Inr rs')" .
  qed
  from Cons.IH [OF this, of rs1] obtain c2 rs2 where "for_each body xs rs1 = (c2, Inr rs2)"
    by (elim exE)
  with b show ?case by simp
qed

lemma igw_metric_step_quiet:
  "igw_metric_step quiet_cloudwatch a r st en igw m rs =
     ([ListMetrics ''AWS/IGW'' m [(''InternetGatewayId'', gw_id igw)]],
      Inr (rs @ [placeholder_row a r igw m st]))"
  by (rule igw_metric_step_no_data, rule igw_datapoints_no_metric)
     (simp add: quiet_cloudwatch_def)

lemma collect_metrics_quiet_returns:
  "\<exists>calls df. collect_metrics quiet_cloudwatch region account days now nats igws = (calls, Inr df)"
proof -
  let ?st = "now - timedelta_days days"
  obtain c1 where n: "for_each (\<lambda>natgw. for_each
      (nat_metric_step quiet_cloudwatch account region ?st now natgw) NAT_METRICS) nats []
      = (c1, Inr [])"
    using nat_loops_quiet [of account region ?st now nats "[]"]
    by (cases "for_each (\<lambda>natgw. for_each
      (nat_metric_step quiet_cloudwatch account region ?st now natgw) NAT_METRICS) nats []") simp
  have "\<forall>x \<in> set igws. \<forall>rs. \<exists>c rs'. for_each
      (igw_metric_step quiet_cloudwatch account region ?st now x) IGW_METRICS rs = (c, Inr rs')"
  proof (rule ballI, rule allI)
    fix x rs
    have "\<forall>m \<in> set IGW_METRICS. \<forall>rs. \<exists>c rs'.
        igw_metric_step quiet_cloudwatch account region ?st now x m rs = (c, Inr rs')"
      by (rule ballI, rule allI, intro exI, rule igw_metric_step_quiet)
    then show "\<exists>c rs'. for_each
      (igw_metric_step quiet_cloudwatch account region ?st now x) IGW_METRICS rs = (c, Inr rs')"
      by (rule for_each_returns)
  qed
  from for_each_returns [OF this, of "[]"] obtain c2 df where "for_each (\<lambda>igw. for_each
      (igw_metric_step quiet_cloudwatch account region ?st now igw) IGW_METRICS) igws []
      = (c2, Inr df)"
    by (elim exE)
  with n show ?thesis
    unfolding collect_metrics_def Let_def by simp
qed

lemma igw_datapoints_quiet:
  "snd (igw_datapoints quiet_cloudwatch gid m st en) = Inr []"
  by (simp add: igw_datapoints_def quiet_cloudwatch_def return_io_def)

text \<open>
  C5 (as stated, refuted). A NAT gateway for which no metric has any datapoint gets no
  placeholder: the collected table is empty, and the gateway is absent from it.
\<close>

theorem nat_gateway_without_data_dropped:
  "snd (collect_metrics quiet_cloudwatch ''us-east-1'' ''123456789012'' 90 0 [example_nat] [])
     = Inr []"
proof -
  obtain c1 where n: "for_each (\<lambda>natgw. for_each
      (nat_metric_step quiet_cloudwatch ''123456789012'' ''us-east-1'' (0 - timedelta_days 90) 0 natgw)
      NAT_METRICS) [example_nat] [] = (c1, Inr [])"
    using nat_loops_quiet [of "''123456789012''" "''us-east-1''" "0 - timedelta_days 90" 0
        "[example_nat]" "[]"]
    by (cases "for_each (\<lambda>natgw. for_each
      (nat_metric_step quiet_cloudwatch ''123456789012'' ''us-east-1'' (0 - timedelta_days 90) 0 natgw)
      NAT_METRICS) [example_nat] []") simp
  show ?thesis
    unfolding collect_metrics_def Let_def n
    by (simp add: return_io_def)
qed

text \<open>
  C5 (amended). For every Internet Gateway and every metric of the IGW catalog, a
  collection that returns has a row of that gateway and metric in its table; and when the
  metric has no datapoint for the gateway over the range (the probe finds nothing, or the
  fetch returns none) that row is the zero-valued placeholder at the window start.
\<close>

theorem igw_represented_by_placeholder:
  assumes "collect_metrics cw region account days now nats igws = (calls, Inr df)"
    and "g \<in> set igws" and "m \<in> set IGW_METRICS"
  shows "(\<exists>row \<in> set df. Gateway_Type row = ''IGW'' \<and> Gateway_ID row = gw_id g \<and> Metric row = m) \<and>
         (snd (igw_datapoints cw (gw_id g) m (now - timedelta_days days) now) = Inr [] \<longrightarrow>
            (\<exists>row \<in> set df. row = placeholder_row account region g m (now - timedelta_days days) \<and>
               Gateway_Type row = ''IGW'' \<and> Gateway_ID row = gw_id g \<and> Metric row = m \<and>
               Timestamp row = now - timedelta_days days \<and>
               Sum row = 0 \<and> Average row = 0 \<and> Maximum row = 0 \<and> Minimum row = 0))"
proof -
  let ?st = "now - timedelta_days days"
  from collect_metrics_loops [OF assms(1)] obtain c1 r1 c2 where
    loops: "for_each (\<lambda>igw. for_each (igw_metric_step cw account region ?st now igw) IGW_METRICS)
              igws r1 = (c2, Inr df)"
    by (elim exE conjE)
  from igw_loops_represented [OF loops assms(2,3)] obtain row
    where row: "row \<in> set df" and "igw_row_of cw ?st now (gw_id g) m row"
    by (elim bexE)
  then have "Gateway_Type row = ''IGW'' \<and> Gateway_ID row = gw_id g \<and> Metric row = m"
    by (simp add: igw_row_of_def)
  with row have 1: "\<exists>row \<in> set df. Gateway_Type row = ''IGW'' \<and> Gateway_ID row = gw_id g \<and>
      Metric row = m"
    by (rule rev_bexI)
  have 2: "\<exists>row \<in> set df. row = placeholder_row account region g m ?st \<and>
               Gateway_Type row = ''IGW'' \<and> Gateway_ID row = gw_id g \<and> Metric row = m \<and>
               Timestamp row = ?st \<and>
               Sum row = 0 \<and> Average row = 0 \<and> Maximum row = 0 \<and> Minimum row = 0"
    if "snd (igw_datapoints cw (gw_id g) m ?st now) = Inr []"
  proof -
    from igw_loops_placeholder [OF loops assms(2,3) that]
    have "placeholder_row account region g m ?st \<in> set df" .
    then show ?thesis by (rule rev_bexI) simp
  qed
  from 1 2 show ?thesis by (intro conjI impI)
qed

theorem igw_represented_by_placeholder_witness:
  "\<exists>calls df. collect_metrics quiet_cloudwatch ''us-east-1'' ''123456789012'' 90 0
       [example_nat] [example_igw] = (calls, Inr df) \<and>
     example_igw \<in> set [example_igw] \<and> ''BytesInFromDestination'' \<in> set IGW_METRICS \<and>
     snd (igw_datapoints quiet_cloudwatch (gw_id example_igw) ''BytesInFromDestination''
            (0 - timedelta_days 90) 0) = Inr [] \<and>
     placeholder_row ''123456789012'' ''us-east-1'' example_igw ''BytesInFromDestination''
       (0 - timedelta_days 90) \<in> set df"
proof -
  let ?st = "0 - timedelta_days 90"
  have nodata: "snd (igw_datapoints quiet_cloudwatch (gw_id example_igw)
      ''BytesInFromDestination'' ?st 0) = Inr []"
    by (rule igw_datapoints_quiet)
  from collect_metrics_quiet_returns [of "''us-east-1''" "''123456789012''" 90 0
      "[example_nat]" "[example_igw]"]
  obtain calls df where c: "collect_metrics quiet_cloudwatch ''us-east-1'' ''123456789012'' 90 0
       [example_nat] [example_igw] = (calls, Inr df)"
    by (elim exE)
  have g: "example_igw \<in> set [example_igw]" by simp
  have m: "''BytesInFromDestination'' \<in> set IGW_METRICS" by (simp add: IGW_METRICS_def)
  from mp [OF conjunct2 [OF igw_represented_by_placeholder [OF c g m]] nodata]
  obtain row where r: "row \<in> set df"
    and f: "row = placeholder_row ''123456789012'' ''us-east-1'' example_igw
           ''BytesInFromDestination'' ?st \<and>
               Gateway_Type row = ''IGW'' \<and> Gateway_ID row = gw_id example_igw \<and>
               Metric row = ''BytesInFromDestination'' \<and> Timestamp row = ?st \<and>
               Sum row = 0 \<and> Average row = 0 \<and> Maximum row = 0 \<and> Minimum row = 0"
    by (elim bexE)
  from conjunct1 [OF f] r have p: "placeholder_row ''123456789012'' ''us-east-1'' example_igw
      ''BytesInFromDestination'' ?st \<in> set df" by (rule subst)
  show ?thesis
    by (rule exI [of _ calls], rule exI [of _ df], intro conjI, rule c, rule g, rule m,
        rule nodata, rule p)
qed

section \<open>Collection followed by analysis\<close>

lemma round2_100: "round2 100 = 100"
  by (simp add: round2_def round_half_even_def)

lemma sum_list_zeros: "\<forall>x \<in> set xs. x = (0::real) \<Longrightarrow> sum_list xs = 0"
  by (induction xs) simp_all

lemma sum_where_zero:
  assumes "\<forall>row \<in> set gw. Sum row = 0"
  shows "sum_where cond gw = 0"
proof -
  have "\<forall>x \<in> set (map Sum (filter cond gw)). x = 0"
    using assms by auto
  then have "sum_list (map Sum (filter cond gw)) = 0"
    by (rule sum_list_zeros)
  then show ?thesis by (simp add: sum_where_def)
qed

lemma single_timestamp_periods:
  assumes ts: "\<forall>row \<in> set gw. Timestamp row = st \<and> Sum row = 0"
    and tr: "\<exists>row \<in> set gw. Metric row \<in> set traffic"
  shows "total_periods_of gw = 1" and "idle_periods_of traffic gw = 1"
proof -
  from tr obtain row where row: "row \<in> set gw" "Metric row \<in> set traffic" by (elim bexE)
  have "set (map Timestamp gw) = {st}"
    using ts row(1) by auto
  then show "total_periods_of gw = 1"
    by (simp add: total_periods_of_def length_unique)
  have "{t. \<exists>r \<in> set gw. Timestamp r = t \<and> Metric r \<in> set traffic \<and> Sum r = 0} = {st}"
    using ts row by auto
  then show "idle_periods_of traffic gw = 1"
    by (simp add: idle_periods_of_card)
qed

lemma summary_body_all_idle:
  assumes b: "summary_body a r gt traffic gid row0 gw = Inr s"
    and k: "gt \<noteq> ''NAT''"
    and ts: "\<forall>row \<in> set gw. Timestamp row = st \<and> Sum row = 0"
    and tr: "\<exists>row \<in> set gw. Metric row \<in> set traffic"
  shows "s ''Total_Periods'' = Some (Num 1)"
    and "s ''Idle_Periods'' = Some (Num 1)"
    and "s ''Idle_Percentage'' = Some (Num 100)"
    and "s ''Total_Bytes_In'' = Some (Num 0) \<and> s ''Total_Bytes_Out'' = Some (Num 0) \<and>
         s ''Total_Packets_In'' = Some (Num 0) \<and> s ''Total_Packets_Out'' = Some (Num 0)"
    and "s ''Total_Bytes'' = Some (Num 0) \<and> s ''Total_Packets'' = Some (Num 0)"
    and "s ''Bytes_Per_Second_Avg'' = Some (Num 0) \<and> s ''Packets_Per_Second_Avg'' = Some (Num 0)"
    and "s ''Total_Blackhole_Drops_Bytes'' = Some (Num 0) \<and>
         s ''Total_NoRoute_Drops_Bytes'' = Some (Num 0) \<and>
         s ''Total_Blackhole_Drops_Packets'' = Some (Num 0) \<and>
         s ''Total_NoRoute_Drops_Packets'' = Some (Num 0)"
    and "s ''Status'' = Some (Str ''Inactive'')"
proof -
  note p = single_timestamp_periods [OF ts tr]
  from ts have z: "\<forall>row \<in> set gw. Sum row = 0" by simp
  from summary_body_fields(3,4,5) [OF b]
  show "s ''Total_Periods'' = Some (Num 1)" "s ''Idle_Periods'' = Some (Num 1)"
    "s ''Idle_Percentage'' = Some (Num 100)"
    by (simp_all add: p round2_100)
  from summary_body_totals [OF b] obtain b_in b_out p_in p_out where
    s: "s ''Total_Bytes_In'' = Some (Num b_in)" "s ''Total_Bytes_Out'' = Some (Num b_out)"
      "s ''Total_Packets_In'' = Some (Num p_in)" "s ''Total_Packets_Out'' = Some (Num p_out)"
    and kd: "(if gt = ''NAT'' then nat_summary gw else igw_summary gw) ''Total_Bytes_In'' = Some (Num b_in)"
      "(if gt = ''NAT'' then nat_summary gw else igw_summary gw) ''Total_Bytes_Out'' = Some (Num b_out)"
      "(if gt = ''NAT'' then nat_summary gw else igw_summary gw) ''Total_Packets_In'' = Some (Num p_in)"
      "(if gt = ''NAT'' then nat_summary gw else igw_summary gw) ''Total_Packets_Out'' = Some (Num p_out)"
    and t: "s ''Total_Bytes'' = Some (Num (b_in + b_out))"
      "s ''Total_Packets'' = Some (Num (p_in + p_out))"
    and rt: "s ''Bytes_Per_Second_Avg'' =
         Some (Num (round2 ((b_in + b_out) / real (max (total_periods_of gw * PERIOD_SECONDS) 1))))"
      "s ''Packets_Per_Second_Avg'' =
         Some (Num (round2 ((p_in + p_out) / real (max (total_periods_of gw * PERIOD_SECONDS) 1))))"
    by (elim exE conjE)
  from kd k have zero: "b_in = 0" "b_out = 0" "p_in = 0" "p_out = 0"
    by (simp_all add: igw_summary_totals sum_where_zero [OF z])
  from s zero show "s ''Total_Bytes_In'' = Some (Num 0) \<and> s ''Total_Bytes_Out'' = Some (Num 0) \<and>
         s ''Total_Packets_In'' = Some (Num 0) \<and> s ''Total_Packets_Out'' = Some (Num 0)"
    by simp
  from t zero show "s ''Total_Bytes'' = Some (Num 0) \<and> s ''Total_Packets'' = Some (Num 0)"
    by simp
  from rt zero show "s ''Bytes_Per_Second_Avg'' = Some (Num 0) \<and>
      s ''Packets_Per_Second_Avg'' = Some (Num 0)"
    by (simp add: round2_0)
  from summary_body_igw_fields(2-5) [OF b k]
  show "s ''Total_Blackhole_Drops_Bytes'' = Some (Num 0) \<and>
         s ''Total_NoRoute_Drops_Bytes'' = Some (Num 0) \<and>
         s ''Total_Blackhole_Drops_Packets'' = Some (Num 0) \<and>
         s ''Total_NoRoute_Drops_Packets'' = Some (Num 0)"
    by (simp add: igw_summary_drops sum_where_zero [OF z])
  from summary_body_igw_fields(1) [OF b k] z
  show "s ''Status'' = Some (Str ''Inactive'')"
    by (simp add: igw_summary_drops list_all_iff)
qed

lemma collected_igw_rows_all_placeholders:
  assumes c: "collect_metrics cw region account days now nats igws = (calls, Inr df)"
    and g: "g \<in> set igws"
    and nodata: "\<forall>m \<in> set IGW_METRICS.
        snd (igw_datapoints cw (gw_id g) m (now - timedelta_days days) now) = Inr []"
  shows "\<forall>row \<in> set (rows_of df ''IGW'' (gw_id g)).
           Timestamp row = now - timedelta_days days \<and> Sum row = 0"
    and "\<exists>row \<in> set (rows_of df ''IGW'' (gw_id g)). Metric row \<in> set (traffic_metrics IGW_METRICS)"
    and "\<exists>row \<in> set df. Gateway_Type row = ''IGW'' \<and> Gateway_ID row = gw_id g"
proof -
  let ?st = "now - timedelta_days days"
  from collect_metrics_loops [OF c] obtain c1 r1 c2 where
    nl: "for_each (\<lambda>natgw. for_each (nat_metric_step cw account region ?st now natgw) NAT_METRICS)
              nats [] = (c1, Inr r1)"
    and il: "for_each (\<lambda>igw. for_each (igw_metric_step cw account region ?st now igw) IGW_METRICS)
              igws r1 = (c2, Inr df)"
    by (elim exE conjE)
  from nat_loops_rows [OF nl] have r1: "\<forall>row \<in> set r1. Gateway_Type row = ''NAT''" by simp
  note origin = conjunct2 [OF igw_loops_rows [OF il]]
  show "\<forall>row \<in> set (rows_of df ''IGW'' (gw_id g)). Timestamp row = ?st \<and> Sum row = 0"
  proof
    fix row assume "row \<in> set (rows_of df ''IGW'' (gw_id g))"
    then have row: "row \<in> set df" and ty: "Gateway_Type row = ''IGW''"
      and id: "Gateway_ID row = gw_id g"
      by (simp_all add: rows_of_def)
    from ty r1 have "row \<notin> set r1" by auto
    with bspec [OF origin row]
    have "\<exists>igw \<in> set igws. \<exists>m \<in> set IGW_METRICS. igw_row_of cw ?st now (gw_id igw) m row"
      by simp
    then obtain igw m where "igw \<in> set igws" and m: "m \<in> set IGW_METRICS"
      and o: "igw_row_of cw ?st now (gw_id igw) m row"
      by (elim bexE)
    from o have "Gateway_ID row = gw_id igw" by (simp add: igw_row_of_def)
    with id have same: "gw_id igw = gw_id g" by simp
    from o obtain c' dps where d: "igw_datapoints cw (gw_id igw) m ?st now = (c', Inr dps)"
      and f: "if dps = [] then Timestamp row = ?st \<and> Sum row = 0 \<and> Average row = 0 \<and>
              Maximum row = 0 \<and> Minimum row = 0
         else \<exists>dp \<in> set dps. Timestamp row = dp_Timestamp dp"
      unfolding igw_row_of_def by (elim exE conjE)
    from bspec [OF nodata m] d same have "dps = []" by simp
    with f show "Timestamp row = ?st \<and> Sum row = 0" by simp
  qed
  have m0: "''BytesInFromDestination'' \<in> set IGW_METRICS" by (simp add: IGW_METRICS_def)
  from igw_loops_represented [OF il g m0] obtain row where row: "row \<in> set df"
    and o: "igw_row_of cw ?st now (gw_id g) ''BytesInFromDestination'' row"
    by (elim bexE)
  from o have f: "Gateway_Type row = ''IGW''" "Gateway_ID row = gw_id g"
    "Metric row = ''BytesInFromDestination''"
    by (simp_all add: igw_row_of_def)
  from row f(1,2) have "row \<in> set (rows_of df ''IGW'' (gw_id g))" by (simp add: rows_of_def)
  moreover from f(3) m0 have "Metric row \<in> set (traffic_metrics IGW_METRICS)"
    by (simp only: traffic_metrics_IGW)
  ultimately show "\<exists>row \<in> set (rows_of df ''IGW'' (gw_id g)).
      Metric row \<in> set (traffic_metrics IGW_METRICS)"
    by (rule rev_bexI)
  from f(1,2) have "Gateway_Type row = ''IGW'' \<and> Gateway_ID row = gw_id g" by simp
  with row show "\<exists>row \<in> set df. Gateway_Type row = ''IGW'' \<and> Gateway_ID row = gw_id g"
    by (rule rev_bexI)
qed

text \<open>
  C10. When a collection returns and, for an Internet Gateway \<open>g\<close> among those
  collected, no metric of the IGW catalog has a datapoint, the analysis of the collected
  table succeeds and has a summary of \<open>g\<close> with \<open>Total_Periods = 1\<close>,
  \<open>Idle_Periods = 1\<close>, \<open>Idle_Percentage = 100\<close>, all byte, packet and drop sums \<open>0\<close>,
  both per-second rates \<open>0\<close> and \<open>Status = Inactive\<close>.
\<close>

theorem igw_without_data_summary:
  assumes "collect_metrics cw region account days now nats igws = (calls, Inr df)"
    and "g \<in> set igws"
    and "\<forall>m \<in> set IGW_METRICS.
        snd (igw_datapoints cw (gw_id g) m (now - timedelta_days days) now) = Inr []"
  shows "\<exists>res. analyze_idle_time df account region = Inr res \<and>
           (\<exists>s \<in> set res.
              s ''Gateway_Type'' = Some (Str ''IGW'') \<and>
              s ''Gateway_ID'' = Some (Str (gw_id g)) \<and>
              s ''Total_Periods'' = Some (Num 1) \<and>
              s ''Idle_Periods'' = Some (Num 1) \<and>
              s ''Idle_Percentage'' = Some (Num 100) \<and>
              (s ''Total_Bytes_In'' = Some (Num 0) \<and> s ''Total_Bytes_Out'' = Some (Num 0) \<and>
               s ''Total_Packets_In'' = Some (Num 0) \<and> s ''Total_Packets_Out'' = Some (Num 0)) \<and>
              (s ''Total_Bytes'' = Some (Num 0) \<and> s ''Total_Packets'' = Some (Num 0)) \<and>
              (s ''Bytes_Per_Second_Avg'' = Some (Num 0) \<and>
               s ''Packets_Per_Second_Avg'' = Some (Num 0)) \<and>
              (s ''Total_Blackhole_Drops_Bytes'' = Some (Num 0) \<and>
               s ''Total_NoRoute_Drops_Bytes'' = Some (Num 0) \<and>
               s ''Total_Blackhole_Drops_Packets'' = Some (Num 0) \<and>
               s ''Total_NoRoute_Drops_Packets'' = Some (Num 0)) \<and>
              s ''Status'' = Some (Str ''Inactive''))"
proof -
  let ?gw = "rows_of df ''IGW'' (gw_id g)"
  let ?traffic = "traffic_metrics IGW_METRICS"
  note rows = collected_igw_rows_all_placeholders [OF assms]
  from rows(3) obtain row where row: "row \<in> set df"
    and ty: "Gateway_Type row = ''IGW''" and id: "Gateway_ID row = gw_id g"
    by (elim bexE conjE)
  from row have "df \<noteq> []" by auto
  from analyze_idle_time_total [OF this, of account region] obtain res
    where res: "analyze_idle_time df account region = Inr res" by (elim exE)
  from ty have "Gateway_Type row = ''NAT'' \<and> IGW_METRICS = NAT_METRICS \<or>
      Gateway_Type row = ''IGW'' \<and> IGW_METRICS = IGW_METRICS" by simp
  from analyze_idle_time_cover [OF res row this] obtain s where s: "s \<in> set res"
    and gs: "gateway_summary account region (Gateway_Type row) ?traffic (Gateway_ID row)
               (rows_of df (Gateway_Type row) (Gateway_ID row)) = Inr s"
    by (elim bexE)
  from gateway_summary_body [OF gs]
  have b: "summary_body account region ''IGW'' ?traffic (gw_id g) (hd ?gw) ?gw = Inr s"
    unfolding ty id by (elim conjE)
  have k: "''IGW'' \<noteq> ''NAT''" by simp
  note f = summary_body_fields(1,2) [OF b] summary_body_all_idle [OF b k rows(1,2)]
  show ?thesis
    by (rule exI [of _ res], rule conjI [OF res], rule bexI [OF _ s],
        rule conjI [OF f(1)], rule conjI [OF f(2)], rule conjI [OF f(3)],
        rule conjI [OF f(4)], rule conjI [OF f(5)], rule conjI [OF f(6)],
        rule conjI [OF f(7)], rule conjI [OF f(8)], rule conjI [OF f(9)], rule f(10))
qed

theorem igw_without_data_summary_witness:
  "\<exists>calls df res.
     collect_metrics quiet_cloudwatch ''us-east-1'' ''123456789012'' 90 0
       [example_nat] [example_igw] = (calls, Inr df) \<and>
     example_igw \<in> set [example_igw] \<and>
     analyze_idle_time df ''123456789012'' ''us-east-1'' = Inr res \<and>
     (\<exists>s \<in> set res.
        s ''Gateway_ID'' = Some (Str (gw_id example_igw)) \<and>
        s ''Total_Periods'' = Some (Num 1) \<and> s ''Idle_Periods'' = Some (Num 1) \<and>
        s ''Idle_Percentage'' = Some (Num 100) \<and> s ''Status'' = Some (Str ''Inactive''))"
proof -
  let ?st = "0 - timedelta_days 90"
  from collect_metrics_quiet_returns [of "''us-east-1''" "''123456789012''" 90 0
      "[example_nat]" "[example_igw]"]
  obtain calls df where c: "collect_metrics quiet_cloudwatch ''us-east-1'' ''123456789012'' 90 0
       [example_nat] [example_igw] = (calls, Inr df)"
    by (elim exE)
  have g: "example_igw \<in> set [example_igw]" by simp
  have nodata: "\<forall>m \<in> set IGW_METRICS.
      snd (igw_datapoints quiet_cloudwatch (gw_id example_igw) m ?st 0) = Inr []"
    by (rule ballI, rule igw_datapoints_quiet)
  from igw_without_data_summary [OF c g nodata] obtain res s
    where res: "analyze_idle_time df ''123456789012'' ''us-east-1'' = Inr res"
      and s: "s \<in> set res"
      and f: "s ''Gateway_ID'' = Some (Str (gw_id example_igw))"
        "s ''Total_Periods'' = Some (Num 1)" "s ''Idle_Periods'' = Some (Num 1)"
        "s ''Idle_Percentage'' = Some (Num 100)" "s ''Status'' = Some (Str ''Inactive'')"
    by (elim exE bexE conjE)
  show ?thesis
    by (rule exI [of _ calls], rule exI [of _ df], rule exI [of _ res], intro conjI,
        rule c, rule g, rule res, rule bexI [OF _ s], intro conjI, (rule f)+)
qed

end
